theory Spec2Isabelle
  imports Complex_Main "HOL-Library.AList" "HOL-Library.Sublist"
begin

section \<open>Strings of the source language\<close>

text \<open>
  A source string is a sequence of code units; it is modelled as a \<open>string\<close>, so the
  texts considered are those whose code units lie in the Latin-1 range. Numbers that the
  source uses as positions and sizes are integers; numbers that it divides are rationals.
\<close>

definition clampIndex :: "int \<Rightarrow> nat \<Rightarrow> nat" where
  "clampIndex i n = min (nat i) n"

definition substring :: "string \<Rightarrow> int \<Rightarrow> int \<Rightarrow> string" where
  \<comment> \<open>\<open>s.substring(a, b)\<close>: both ends clamped to \<open>[0, length]\<close>, swapped when \<open>a > b\<close>.\<close>
  "substring s a b =
     (let lo = min (clampIndex a (length s)) (clampIndex b (length s));
          hi = max (clampIndex a (length s)) (clampIndex b (length s))
      in take (hi - lo) (drop lo s))"

definition substringFrom :: "string \<Rightarrow> int \<Rightarrow> string" where
  \<comment> \<open>\<open>s.substring(a)\<close>: from the clamped start to the end of the string.\<close>
  "substringFrom s a = drop (clampIndex a (length s)) s"

definition isWhiteSpace :: "char \<Rightarrow> bool" where
  \<comment> \<open>The white space and line terminators of the source language below code unit 256.\<close>
  "isWhiteSpace c = (of_char c \<in> {9, 10, 11, 12, 13, 32, 160 :: nat})"

definition trim :: "string \<Rightarrow> string" where
  "trim s = rev (dropWhile isWhiteSpace (rev (dropWhile isWhiteSpace s)))"

definition matchesAt :: "string \<Rightarrow> string \<Rightarrow> nat \<Rightarrow> bool" where
  "matchesAt s d k = (k + length d \<le> length s \<and> take (length d) (drop k s) = d)"

fun lastIndexDown :: "string \<Rightarrow> string \<Rightarrow> nat \<Rightarrow> int" where
  "lastIndexDown s d 0 = (if matchesAt s d 0 then 0 else -1)"
| "lastIndexDown s d (Suc k) =
     (if matchesAt s d (Suc k) then int (Suc k) else lastIndexDown s d k)"

definition lastIndexOf :: "string \<Rightarrow> string \<Rightarrow> int \<Rightarrow> int" where
  \<comment> \<open>\<open>s.lastIndexOf(d, fromIndex)\<close>: the largest match position not above
      \<open>fromIndex\<close>, or \<open>-1\<close>.\<close>
  "lastIndexOf s d fromIndex =
     (if length s < length d then -1
      else lastIndexDown s d (min (nat fromIndex) (length s - length d)))"

section \<open>TextChunking\<close>

subsection \<open>splitIntoChunks\<close>

definition findLastOccurrence :: "string \<Rightarrow> string list \<Rightarrow> int \<Rightarrow> int \<Rightarrow> int" where
  "findLastOccurrence text delimiters startPosition endPosition =
     foldl (\<lambda>lastPosition delimiter.
              (let position = lastIndexOf text delimiter endPosition
               in if position > lastPosition \<and> position \<le> endPosition
                  then position + int (length delimiter)
                  else lastPosition))
           startPosition delimiters"

definition paragraphDelimiters :: "string list" where
  "paragraphDelimiters = [[CHR 0x0A, CHR 0x0A], [CHR 0x0D, CHR 0x0A, CHR 0x0D, CHR 0x0A]]"

definition sentenceDelimiters :: "string list" where
  "sentenceDelimiters =
     [''. '', ''! '', ''? '', [CHR ''.'', CHR 0x0A], [CHR ''!'', CHR 0x0A], [CHR ''?'', CHR 0x0A]]"

definition chunkEnd :: "string \<Rightarrow> int \<Rightarrow> int \<Rightarrow> int" where
  \<comment> \<open>The end position chosen in one pass of the loop. The source compares with
      \<open>maxChunkSize / 2\<close> and \<open>maxChunkSize / 3\<close>; both sides are multiplied out here.\<close>
  "chunkEnd text maxChunkSize currentPosition =
     (let endPosition = min (currentPosition + maxChunkSize) (int (length text));
          paragraphBreak = findLastOccurrence text paragraphDelimiters currentPosition endPosition
      in if 2 * paragraphBreak > 2 * currentPosition + maxChunkSize then paragraphBreak
         else (let sentenceBreak =
                     findLastOccurrence text sentenceDelimiters currentPosition endPosition
               in if 3 * sentenceBreak > 3 * currentPosition + maxChunkSize then sentenceBreak
                  else endPosition))"

partial_function (option) splitLoop ::
  "string \<Rightarrow> int \<Rightarrow> int \<Rightarrow> int \<Rightarrow> string list \<Rightarrow> string list option" where
  "splitLoop text maxChunkSize overlapSize currentPosition chunks =
     (if currentPosition < int (length text) then
        (let endPosition = chunkEnd text maxChunkSize currentPosition;
             chunk = trim (substring text currentPosition endPosition)
         in splitLoop text maxChunkSize overlapSize
              (max currentPosition (endPosition - overlapSize)) (chunks @ [chunk]))
      else Some chunks)"

declare splitLoop.simps [code]

definition splitIntoChunks :: "string \<Rightarrow> int \<Rightarrow> int \<Rightarrow> string list option" where
  \<comment> \<open>\<open>None\<close> is the run of the while loop that never leaves it.\<close>
  "splitIntoChunks text maxChunkSize overlapSize =
     (if text = [] \<or> int (length text) \<le> maxChunkSize then Some [text]
      else splitLoop text maxChunkSize overlapSize 0 [])"

subsection \<open>mergeChunks\<close>

definition toLowerChar :: "char \<Rightarrow> char" where
  \<comment> \<open>Lower-casing of one code unit below 256: A-Z and the accented capitals.\<close>
  "toLowerChar c =
     (let n = (of_char c :: nat)
      in if (65 \<le> n \<and> n \<le> 90) \<or> (192 \<le> n \<and> n \<le> 214) \<or> (216 \<le> n \<and> n \<le> 222)
         then char_of (n + 32) else c)"

definition toLowerCase :: "string \<Rightarrow> string" where
  "toLowerCase s = map toLowerChar s"

definition toInteger :: "rat \<Rightarrow> int" where
  \<comment> \<open>The conversion of a number to an index: truncation towards zero.\<close>
  "toInteger x = (if 0 \<le> x then \<lfloor>x\<rfloor> else \<lceil>x\<rceil>)"

definition calculateSimilarity :: "string \<Rightarrow> string \<Rightarrow> rat" where
  "calculateSimilarity a b =
     (if a = [] \<or> b = [] then 0
      else (let strA = toLowerCase a;
                strB = toLowerCase b;
                minLength = min (length strA) (length strB);
                matches = length (filter (\<lambda>i. strA ! i = strB ! i) [0..<minLength])
            in of_nat matches / of_nat minLength))"

function overlapLoop :: "string \<Rightarrow> string \<Rightarrow> rat \<Rightarrow> rat \<Rightarrow> rat" where
  "overlapLoop first second similarityThreshold overlapSize =
     (if overlapSize \<ge> 10 then
        (let endOfFirst = substringFrom first (toInteger (of_nat (length first) - overlapSize));
             startOfSecond = substring second 0 (toInteger overlapSize);
             similarity = calculateSimilarity endOfFirst startOfSecond
         in if similarity \<ge> similarityThreshold then overlapSize
            else overlapLoop first second similarityThreshold (overlapSize - 10))
      else 0)"
  by pat_completeness auto
termination
  by (relation "measure (\<lambda>(first, second, t, overlapSize). nat \<lfloor>overlapSize\<rfloor>)")
     (auto simp: nat_less_iff floor_less_iff le_floor_iff)

declare overlapLoop.simps [simp del]

definition findOverlapSize :: "string \<Rightarrow> string \<Rightarrow> rat \<Rightarrow> rat" where
  "findOverlapSize first second similarityThreshold =
     (let maxOverlap = of_nat (min (length first) (length second)) / 3
      in overlapLoop first second similarityThreshold (min 200 maxOverlap))"

fun mergeLoop :: "string \<Rightarrow> string list \<Rightarrow> rat \<Rightarrow> string" where
  "mergeLoop result [] overlapThreshold = result"
| "mergeLoop result (currentChunk # rest) overlapThreshold =
     (let overlapSize = findOverlapSize result currentChunk overlapThreshold
      in mergeLoop (result @ substringFrom currentChunk (toInteger overlapSize))
           rest overlapThreshold)"

definition mergeChunks :: "string list \<Rightarrow> rat \<Rightarrow> string" where
  "mergeChunks chunks overlapThreshold =
     (if length chunks \<le> 1 then (case chunks of [] \<Rightarrow> [] | c # _ \<Rightarrow> c)
      else mergeLoop (hd chunks) (tl chunks) overlapThreshold)"

subsection \<open>The merge as the specification words it\<close>

text \<open>
  The candidate overlap lengths run from a start value down to 10 in steps of 10; the
  match ratio of two strings is the share of positions at which they carry the same
  character, after both went through a normalisation \<open>nf\<close> (the identity for the
  specification as worded).
\<close>

fun candidateLengths :: "nat \<Rightarrow> nat list" where
  "candidateLengths m = (if 10 \<le> m then m # candidateLengths (m - 10) else [])"

declare candidateLengths.simps [simp del]

definition matchRatio :: "(string \<Rightarrow> string) \<Rightarrow> string \<Rightarrow> string \<Rightarrow> rat" where
  "matchRatio nf a b =
     of_nat (length (filter (\<lambda>(x, y). x = y) (zip (nf a) (nf b))))
       / of_nat (min (length a) (length b))"

definition spec_overlap :: "(string \<Rightarrow> string) \<Rightarrow> string \<Rightarrow> string \<Rightarrow> rat \<Rightarrow> nat" where
  "spec_overlap nf acc chunk t =
     (case find (\<lambda>k. t \<le> matchRatio nf (drop (length acc - k) acc) (take k chunk))
                (candidateLengths (min 200 (min (length acc) (length chunk) div 3)))
      of Some k \<Rightarrow> k | None \<Rightarrow> 0)"

fun spec_mergeFrom :: "(string \<Rightarrow> string) \<Rightarrow> string \<Rightarrow> string list \<Rightarrow> rat \<Rightarrow> string" where
  "spec_mergeFrom nf acc [] t = acc"
| "spec_mergeFrom nf acc (c # cs) t =
     spec_mergeFrom nf (acc @ drop (spec_overlap nf acc c t) c) cs t"

definition spec_mergeChunks :: "(string \<Rightarrow> string) \<Rightarrow> string list \<Rightarrow> rat \<Rightarrow> string" where
  "spec_mergeChunks nf chunks t =
     (case chunks of [] \<Rightarrow> [] | c # cs \<Rightarrow> spec_mergeFrom nf c cs t)"

fun noFractionFrom :: "string \<Rightarrow> string list \<Rightarrow> rat \<Rightarrow> bool" where
  "noFractionFrom acc [] t = True"
| "noFractionFrom acc (c # cs) t =
     ((min (length acc) (length c) mod 3 = 0 \<or> min (length acc) (length c) < 30
       \<or> 600 \<le> min (length acc) (length c)) \<and>
      noFractionFrom (acc @ drop (spec_overlap toLowerCase acc c t) c) cs t)"

definition noFractionalCandidate :: "string list \<Rightarrow> rat \<Rightarrow> bool" where
  \<comment> \<open>No step of the merge probes a candidate length that is not a whole number: the
      shorter length is divisible by 3, below 30 (no candidate at all) or at least 600
      (the first candidate is 200).\<close>
  "noFractionalCandidate chunks t =
     (case chunks of [] \<Rightarrow> True | c # cs \<Rightarrow> noFractionFrom c cs t)"

section \<open>RetryManager\<close>

text \<open>
  An error value carries the three properties the retry predicates read: \<open>code\<close>,
  \<open>message\<close> and \<open>response.status\<close>, each absent or present. The operation is a
  state transformer that fails with an error or returns a value. A run records its outcome
  (\<open>Inl None\<close> is the throw of the unassigned \<open>lastError\<close>), the number of times the
  operation was invoked and the delays slept.
\<close>

record js_error =
  err_code :: "string option"
  err_message :: "string option"
  err_status :: "int option"

fun includesStr :: "string \<Rightarrow> string \<Rightarrow> bool" where
  "includesStr [] sub = (sub = [])"
| "includesStr (c # cs) sub = (take (length sub) (c # cs) = sub \<or> includesStr cs sub)"

definition truthy :: "string option \<Rightarrow> bool" where
  "truthy m = (case m of None \<Rightarrow> False | Some v \<Rightarrow> v \<noteq> [])"

definition messageIncludes :: "js_error \<Rightarrow> string \<Rightarrow> bool" where
  "messageIncludes error sub = (case err_message error of None \<Rightarrow> False | Some m \<Rightarrow> includesStr m sub)"

definition defaultRetryCondition :: "js_error \<Rightarrow> bool" where
  "defaultRetryCondition error =
     (if err_code error = Some ''ECONNRESET'' \<or> err_code error = Some ''ENOTFOUND''
         \<or> err_code error = Some ''ETIMEDOUT'' then True
      else if truthy (err_message error) \<and>
              (messageIncludes error ''ECONNRESET'' \<or> messageIncludes error ''ETIMEDOUT''
               \<or> messageIncludes error ''ENOTFOUND'') then True
      else if (case err_status error of None \<Rightarrow> False | Some status \<Rightarrow> status \<ge> 500) then True
      else if err_status error = Some 429 then True
      else False)"

record 'e RetryOptions =
  maxAttempts :: int
  baseDelay :: int
  maxDelay :: int
  backoffFactor :: int
  retryCondition :: "'e \<Rightarrow> bool"

record 'e PartialRetryOptions =
  maxAttempts_opt :: "int option"
  baseDelay_opt :: "int option"
  maxDelay_opt :: "int option"
  backoffFactor_opt :: "int option"
  retryCondition_opt :: "('e \<Rightarrow> bool) option"

definition DEFAULT_OPTIONS :: "js_error RetryOptions" where
  "DEFAULT_OPTIONS = \<lparr>maxAttempts = 3, baseDelay = 1000, maxDelay = 30000, backoffFactor = 2,
                       retryCondition = defaultRetryCondition\<rparr>"

definition noOptions :: "'e PartialRetryOptions" where
  "noOptions = \<lparr>maxAttempts_opt = None, baseDelay_opt = None, maxDelay_opt = None,
                 backoffFactor_opt = None, retryCondition_opt = None\<rparr>"

definition spreadOptions :: "'e RetryOptions \<Rightarrow> 'e PartialRetryOptions \<Rightarrow> 'e RetryOptions" where
  "spreadOptions d options =
     \<lparr>maxAttempts = (case maxAttempts_opt options of None \<Rightarrow> maxAttempts d | Some v \<Rightarrow> v),
      baseDelay = (case baseDelay_opt options of None \<Rightarrow> baseDelay d | Some v \<Rightarrow> v),
      maxDelay = (case maxDelay_opt options of None \<Rightarrow> maxDelay d | Some v \<Rightarrow> v),
      backoffFactor = (case backoffFactor_opt options of None \<Rightarrow> backoffFactor d | Some v \<Rightarrow> v),
      retryCondition = (case retryCondition_opt options of None \<Rightarrow> retryCondition d | Some v \<Rightarrow> v)\<rparr>"

record ('e, 'a, 's) retry_run =
  outcome :: "'e option + 'a"
  final :: 's
  invocations :: nat
  sleeps :: "int list"

function retryLoop ::
  "'e RetryOptions \<Rightarrow> ('s \<Rightarrow> ('e + 'a) \<times> 's) \<Rightarrow> int \<Rightarrow> 'e option \<Rightarrow> 's \<Rightarrow> nat \<Rightarrow> int list
   \<Rightarrow> ('e, 'a, 's) retry_run" where
  "retryLoop config operation attempt lastError s n slept =
     (if attempt \<le> maxAttempts config then
        (case operation s of
           (Inr v, s') \<Rightarrow> \<lparr>outcome = Inr v, final = s', invocations = Suc n, sleeps = slept\<rparr>
         | (Inl error, s') \<Rightarrow>
             if attempt = maxAttempts config
             then \<lparr>outcome = Inl (Some error), final = s', invocations = Suc n, sleeps = slept\<rparr>
             else if \<not> retryCondition config error
             then \<lparr>outcome = Inl (Some error), final = s', invocations = Suc n, sleeps = slept\<rparr>
             else (let delay = min (baseDelay config * backoffFactor config ^ nat (attempt - 1))
                                   (maxDelay config)
                   in retryLoop config operation (attempt + 1) (Some error) s' (Suc n)
                        (slept @ [delay])))
      else \<lparr>outcome = Inl lastError, final = s, invocations = n, sleeps = slept\<rparr>)"
  by pat_completeness auto
termination
  by (relation "measure (\<lambda>(config, operation, attempt, lastError, s, n, slept).
                   nat (maxAttempts config + 1 - attempt))") auto

declare retryLoop.simps [simp del]

definition executeWithRetry ::
  "('s \<Rightarrow> (js_error + 'a) \<times> 's) \<Rightarrow> js_error PartialRetryOptions \<Rightarrow> 's
   \<Rightarrow> (js_error, 'a, 's) retry_run" where
  "executeWithRetry operation options s =
     retryLoop (spreadOptions DEFAULT_OPTIONS options) operation 1 None s 0 []"

definition networkError :: js_error where
  "networkError = \<lparr>err_code = Some ''ECONNRESET'', err_message = None, err_status = None\<rparr>"

definition validationError :: js_error where
  "validationError = \<lparr>err_code = None, err_message = Some ''Validation error'', err_status = None\<rparr>"

section \<open>Translation services\<close>

subsection \<open>Quality heuristics\<close>

function splitWhitespace :: "string \<Rightarrow> string \<Rightarrow> string list" where
  "splitWhitespace current [] = [rev current]"
| "splitWhitespace current (c # cs) =
     (if isWhiteSpace c then rev current # splitWhitespace [] (dropWhile isWhiteSpace cs)
      else splitWhitespace (c # current) cs)"
  by pat_completeness auto
termination
  by (relation "measure (\<lambda>(current, s). length s)")
     (auto simp: length_dropWhile_le less_Suc_eq_le)

definition splitOnWhitespace :: "string \<Rightarrow> string list" where
  \<comment> \<open>\<open>s.split(/\s+/)\<close>: the pieces between maximal runs of white space; a run at
      either end leaves an empty piece there.\<close>
  "splitOnWhitespace s = splitWhitespace [] s"

definition calculateSemanticSimilarity :: "string \<Rightarrow> string \<Rightarrow> rat" where
  "calculateSemanticSimilarity sourceText translatedText =
     (if sourceText = [] \<or> translatedText = [] then 0
      else
        (let sourceWords = splitOnWhitespace (toLowerCase sourceText);
             translatedWords = splitOnWhitespace (toLowerCase translatedText);
             commonWords = filter (\<lambda>word.
                 list_ex (\<lambda>tWord. length word > 3 \<and>
                            (includesStr word tWord \<or> includesStr tWord word))
                   translatedWords) sourceWords;
             overlapRatio = of_nat (length commonWords)
                            / of_nat (max (length sourceWords) (length translatedWords));
             score = 75 + overlapRatio * 20;
             score = (if toLowerCase sourceText = toLowerCase translatedText then 30 else score)
         in max 0 (min 100 score)))"

definition roundToHundredths :: "rat \<Rightarrow> rat" where
  \<comment> \<open>\<open>Math.round(x * 100) / 100\<close>, as calculateQualityMetrics reports each score.\<close>
  "roundToHundredths x = of_int \<lfloor>x * 100 + 1 / 2\<rfloor> / 100"

subsection \<open>Results, languages and the Sarvam transport\<close>

text \<open>
  The adapter of the language-model family, the HTTP request to the Sarvam API and the
  computation of the quality metrics are parameters of the service. A run of
  translateText records, next to its result and the state it leaves, the method families
  it called, in order. The pauses between the attempts of translateWithSarvam are left
  out, and so are the native names of the languages and the optional \<open>llmMetadata\<close> of
  a result, which no function below reads.
\<close>

datatype TranslationMethod = SARVAM | LLM

record TranslationQualityMetrics =
  fluency :: rat
  adequacy :: rat
  semanticSimilarity :: rat
  grammarScore :: rat
  overallAccuracy :: rat
  metricsConfidenceScore :: rat

record TranslationResult =
  translatedText :: string
  sourceLanguageCode :: string
  targetLanguageCode :: string
  requestId :: string
  translationAccuracy :: rat
  confidenceScore :: rat
  qualityMetrics :: TranslationQualityMetrics
  translationMethod :: "TranslationMethod option"

record Language =
  code :: string
  name :: string
  isSupported :: bool

definition SUPPORTED_LANGUAGES :: "Language list" where
  "SUPPORTED_LANGUAGES =
     map (\<lambda>(c, n). \<lparr>code = c, name = n, isSupported = True\<rparr>)
       [(''hi-IN'', ''Hindi''), (''kn-IN'', ''Kannada''), (''te-IN'', ''Telugu''),
        (''bn-IN'', ''Bengali''), (''gu-IN'', ''Gujarati''), (''ml-IN'', ''Malayalam''),
        (''mr-IN'', ''Marathi''), (''od-IN'', ''Odia''), (''pa-IN'', ''Punjabi''),
        (''ta-IN'', ''Tamil''), (''as-IN'', ''Assamese''), (''brx-IN'', ''Bodo''),
        (''doi-IN'', ''Dogri''), (''kok-IN'', ''Konkani''), (''ks-IN'', ''Kashmiri''),
        (''mai-IN'', ''Maithili''), (''mni-IN'', ''Manipuri''), (''ne-IN'', ''Nepali''),
        (''sa-IN'', ''Sanskrit''), (''sat-IN'', ''Santali''), (''sd-IN'', ''Sindhi''),
        (''ur-IN'', ''Urdu''), (''en-IN'', ''English'')]"

record SarvamTranslateRequest =
  input :: string
  source_language_code :: string
  target_language_code :: string
  model :: string
  mode :: string
  enable_preprocessing :: bool
  numerals_format :: string

record SarvamTranslateResponse =
  request_id :: string
  translated_text :: string
  response_source_language_code :: string

record 'o TranslationOptions =
  translationMethod_opt :: "TranslationMethod option"
  llmOptions :: "'o option"

record ('o, 's) EnhancedTranslationService =
  llmAdapter :: "(string \<Rightarrow> string \<Rightarrow> string \<Rightarrow> 'o option \<Rightarrow> 's
                  \<Rightarrow> (js_error + TranslationResult) \<times> 's) option"
  defaultMethod :: TranslationMethod
  makeTranslationRequest :: "SarvamTranslateRequest \<Rightarrow> 's
                  \<Rightarrow> (js_error + SarvamTranslateResponse) \<times> 's"
  calculateQualityMetrics :: "string \<Rightarrow> string \<Rightarrow> string \<Rightarrow> string \<Rightarrow> TranslationQualityMetrics"

definition newError :: "string \<Rightarrow> js_error" where
  "newError msg = \<lparr>err_code = None, err_message = Some msg, err_status = None\<rparr>"

definition validateLanguageCode :: "string \<Rightarrow> Language option" where
  "validateLanguageCode languageCode =
     find (\<lambda>lang. code lang = languageCode \<and> isSupported lang) SUPPORTED_LANGUAGES"

definition maxRetries :: int where
  "maxRetries = 3"

definition sarvamResult ::
  "SarvamTranslateResponse \<Rightarrow> string \<Rightarrow> TranslationQualityMetrics \<Rightarrow> TranslationResult" where
  \<comment> \<open>The object that translateWithSarvam returns on success.\<close>
  "sarvamResult response targetLanguage qm =
     \<lparr>translatedText = translated_text response,
      sourceLanguageCode = response_source_language_code response,
      targetLanguageCode = targetLanguage,
      requestId = request_id response,
      translationAccuracy = overallAccuracy qm,
      confidenceScore = metricsConfidenceScore qm,
      qualityMetrics = qm,
      translationMethod = Some SARVAM\<rparr>"

function sarvamAttempts ::
  "('o, 's) EnhancedTranslationService \<Rightarrow> SarvamTranslateRequest \<Rightarrow> string \<Rightarrow> string \<Rightarrow> string
   \<Rightarrow> int \<Rightarrow> js_error option \<Rightarrow> 's \<Rightarrow> (js_error + TranslationResult) \<times> 's" where
  "sarvamAttempts svc request text targetLanguage sourceLanguage attempt lastError s =
     (if attempt \<le> maxRetries then
        (case makeTranslationRequest svc request s of
           (Inr response, s') \<Rightarrow>
             (let qm = calculateQualityMetrics svc text (translated_text response)
                         sourceLanguage targetLanguage
              in (Inr (sarvamResult response targetLanguage qm), s'))
         | (Inl error, s') \<Rightarrow>
             sarvamAttempts svc request text targetLanguage sourceLanguage (attempt + 1)
               (Some error) s')
      else (Inl (newError (''Sarvam translation failed after 3 attempts: '' @
                   (case lastError of
                      None \<Rightarrow> ''Unknown error''
                    | Some e \<Rightarrow> (case err_message e of
                                   None \<Rightarrow> ''Unknown error''
                                 | Some m \<Rightarrow> if m \<noteq> [] then m else ''Unknown error'')))), s))"
  by pat_completeness auto
termination
  by (relation "measure (\<lambda>(svc, request, text, tl, sl, attempt, lastError, s).
                   nat (maxRetries + 1 - attempt))") auto

declare sarvamAttempts.simps [simp del]

definition translateWithSarvam ::
  "('o, 's) EnhancedTranslationService \<Rightarrow> string \<Rightarrow> string \<Rightarrow> string \<Rightarrow> 's
   \<Rightarrow> (js_error + TranslationResult) \<times> 's" where
  "translateWithSarvam svc text targetLanguage sourceLanguage s =
     (if length text > 2000
      then (Inl (newError
              ''Input text exceeds maximum length of 2000 characters for Sarvam API''), s)
      else (case validateLanguageCode targetLanguage of
              None \<Rightarrow> (Inl (newError (''Unsupported target language for Sarvam API: ''
                                       @ targetLanguage)), s)
            | Some targetLang \<Rightarrow>
                sarvamAttempts svc
                  \<lparr>input = trim text, source_language_code = sourceLanguage,
                   target_language_code = targetLanguage, model = ''sarvam-translate:v1'',
                   mode = ''formal'', enable_preprocessing = True,
                   numerals_format = ''international''\<rparr>
                  text targetLanguage sourceLanguage 1 None s))"

definition translateWithLLM ::
  "('o, 's) EnhancedTranslationService \<Rightarrow> string \<Rightarrow> string \<Rightarrow> string \<Rightarrow> 'o option \<Rightarrow> 's
   \<Rightarrow> (js_error + TranslationResult) \<times> 's" where
  "translateWithLLM svc text targetLanguage sourceLanguage options s =
     (case llmAdapter svc of
        None \<Rightarrow> (Inl (newError ''LLM translation adapter is not initialized''), s)
      | Some adapter \<Rightarrow> adapter text targetLanguage sourceLanguage options s)"

definition selectedMethod ::
  "('o, 's) EnhancedTranslationService \<Rightarrow> 'o TranslationOptions option \<Rightarrow> TranslationMethod" where
  "selectedMethod svc options =
     (case options of
        None \<Rightarrow> defaultMethod svc
      | Some opts \<Rightarrow> (case translationMethod_opt opts of
                       None \<Rightarrow> defaultMethod svc
                     | Some m \<Rightarrow> m))"

definition llmOptionsOf :: "'o TranslationOptions option \<Rightarrow> 'o option" where
  "llmOptionsOf options = (case options of None \<Rightarrow> None | Some opts \<Rightarrow> llmOptions opts)"

record 's translate_run =
  result :: "js_error + TranslationResult"
  after :: 's
  calls :: "TranslationMethod list"

definition translateText ::
  "('o, 's) EnhancedTranslationService \<Rightarrow> string \<Rightarrow> string \<Rightarrow> string
   \<Rightarrow> 'o TranslationOptions option \<Rightarrow> 's \<Rightarrow> 's translate_run" where
  "translateText svc text targetLanguage sourceLanguage options s =
     (if text = [] \<or> length (trim text) = 0
      then \<lparr>result = Inl (newError ''Input text cannot be empty''), after = s, calls = []\<rparr>
      else
        (let method = selectedMethod svc options;
             viaLLM = (method = LLM \<and> llmAdapter svc \<noteq> None);
             first = (if viaLLM
                      then translateWithLLM svc text targetLanguage sourceLanguage
                             (llmOptionsOf options) s
                      else translateWithSarvam svc text targetLanguage sourceLanguage s);
             firstCall = (if viaLLM then LLM else SARVAM)
         in (case first of
               (Inr r, s') \<Rightarrow> \<lparr>result = Inr r, after = s', calls = [firstCall]\<rparr>
             | (Inl error, s') \<Rightarrow>
                 if method = LLM \<and> llmAdapter svc \<noteq> None then
                   (let second = translateWithSarvam svc text targetLanguage sourceLanguage s'
                    in \<lparr>result = fst second, after = snd second, calls = [firstCall, SARVAM]\<rparr>)
                 else if llmAdapter svc \<noteq> None then
                   (let second = translateWithLLM svc text targetLanguage sourceLanguage
                                   (llmOptionsOf options) s'
                    in \<lparr>result = fst second, after = snd second, calls = [firstCall, LLM]\<rparr>)
                 else \<lparr>result = Inl error, after = s', calls = [firstCall]\<rparr>)))"

definition isLowAccuracy :: "TranslationResult \<Rightarrow> bool" where
  "isLowAccuracy translationResult = (translationAccuracy translationResult < 70)"

subsection \<open>Sample services\<close>

definition sampleMetrics :: TranslationQualityMetrics where
  "sampleMetrics = \<lparr>fluency = 90, adequacy = 90, semanticSimilarity = 75, grammarScore = 80,
                     overallAccuracy = 335 / 4, metricsConfidenceScore = 375 / 4\<rparr>"

definition sampleResponse :: SarvamTranslateResponse where
  "sampleResponse = \<lparr>request_id = ''req-1'', translated_text = ''namaste duniya'',
                      response_source_language_code = ''en-IN''\<rparr>"

definition llmResult :: TranslationResult where
  "llmResult = (sarvamResult sampleResponse ''hi-IN'' sampleMetrics)\<lparr>translationMethod := Some LLM\<rparr>"

definition sarvamOnlyService :: "(unit, unit) EnhancedTranslationService" where
  \<comment> \<open>Constructed without a provider manager: no adapter, default method LLM; the
      Sarvam API answers.\<close>
  "sarvamOnlyService =
     \<lparr>llmAdapter = None, defaultMethod = LLM,
      makeTranslationRequest = (\<lambda>request s. (Inr sampleResponse, s)),
      calculateQualityMetrics = (\<lambda>a b c d. sampleMetrics)\<rparr>"

definition failingSarvamOnlyService :: "(unit, unit) EnhancedTranslationService" where
  "failingSarvamOnlyService =
     sarvamOnlyService\<lparr>makeTranslationRequest := (\<lambda>request s. (Inl networkError, s))\<rparr>"

definition failingLLMService :: "(unit, unit) EnhancedTranslationService" where
  \<comment> \<open>An adapter that always fails, next to a Sarvam API that answers.\<close>
  "failingLLMService =
     sarvamOnlyService\<lparr>llmAdapter := Some (\<lambda>text tgt src0 options s. (Inl networkError, s))\<rparr>"

definition failingSarvamService :: "(unit, unit) EnhancedTranslationService" where
  \<comment> \<open>An adapter that answers, next to a Sarvam API that always fails.\<close>
  "failingSarvamService =
     \<lparr>llmAdapter = Some (\<lambda>text tgt src0 options s. (Inr llmResult, s)), defaultMethod = SARVAM,
      makeTranslationRequest = (\<lambda>request s. (Inl networkError, s)),
      calculateQualityMetrics = (\<lambda>a b c d. sampleMetrics)\<rparr>"

definition failingBothService :: "(unit, unit) EnhancedTranslationService" where
  "failingBothService =
     failingLLMService\<lparr>makeTranslationRequest := (\<lambda>request s. (Inl networkError, s))\<rparr>"

definition preferSarvam :: "unit TranslationOptions" where
  "preferSarvam = \<lparr>translationMethod_opt = Some SARVAM, llmOptions = None\<rparr>"

definition mismatchedResult :: TranslationResult where
  "mismatchedResult =
     (sarvamResult sampleResponse ''hi-IN'' (sampleMetrics\<lparr>overallAccuracy := 60\<rparr>))
       \<lparr>translationAccuracy := 80\<rparr>"

definition sarvamFailure :: js_error where
  "sarvamFailure = newError ''Sarvam translation failed after 3 attempts: Unknown error''"

section \<open>JobManager\<close>

text \<open>
  The registry is the insertion-ordered map of the source, kept as an association list
  with one entry per key; the queue is a list of job ids. Every operation is one atomic
  step on the pair of both. The clock reading and the fresh identifier that an operation
  obtains are passed to it. A field that \<open>Partial<ProcessingJob>\<close> leaves out is
  \<open>None\<close>; the payload type of \<open>results\<close> is a parameter.
\<close>

datatype JobStatus = PENDING | PROCESSING | COMPLETED | FAILED

datatype ProcessingStage =
  VALIDATING_URL | EXTRACTING_AUDIO | TRANSCRIBING | TRANSLATING | STAGE_COMPLETED

record 'r ProcessingJob =
  job_id :: string
  videoUrl :: "string option"
  targetLanguage :: "string option"
  status :: JobStatus
  progress :: int
  currentStage :: ProcessingStage
  results :: "'r option"
  error :: "string option"
  createdAt :: int
  updatedAt :: int

record 'r PartialJob =
  id_opt :: "string option"
  videoUrl_opt :: "string option"
  targetLanguage_opt :: "string option"
  status_opt :: "JobStatus option"
  progress_opt :: "int option"
  currentStage_opt :: "ProcessingStage option"
  results_opt :: "'r option"
  error_opt :: "string option"
  createdAt_opt :: "int option"
  updatedAt_opt :: "int option"

definition noFields :: "'r PartialJob" where
  "noFields = \<lparr>id_opt = None, videoUrl_opt = None, targetLanguage_opt = None, status_opt = None,
                progress_opt = None, currentStage_opt = None, results_opt = None,
                error_opt = None, createdAt_opt = None, updatedAt_opt = None\<rparr>"

definition orElse :: "'a option \<Rightarrow> 'a \<Rightarrow> 'a" where
  "orElse v d = (case v of None \<Rightarrow> d | Some x \<Rightarrow> x)"

definition orElseOpt :: "'a option \<Rightarrow> 'a option \<Rightarrow> 'a option" where
  "orElseOpt v d = (case v of None \<Rightarrow> d | Some x \<Rightarrow> Some x)"

definition spreadJob :: "'r ProcessingJob \<Rightarrow> 'r PartialJob \<Rightarrow> 'r ProcessingJob" where
  \<comment> \<open>\<open>{...job, ...updates}\<close>: every field present in \<open>updates\<close> replaces the one of \<open>job\<close>.\<close>
  "spreadJob job updates =
     \<lparr>job_id = orElse (id_opt updates) (job_id job),
      videoUrl = orElseOpt (videoUrl_opt updates) (videoUrl job),
      targetLanguage = orElseOpt (targetLanguage_opt updates) (targetLanguage job),
      status = orElse (status_opt updates) (status job),
      progress = orElse (progress_opt updates) (progress job),
      currentStage = orElse (currentStage_opt updates) (currentStage job),
      results = orElseOpt (results_opt updates) (results job),
      error = orElseOpt (error_opt updates) (error job),
      createdAt = orElse (createdAt_opt updates) (createdAt job),
      updatedAt = orElse (updatedAt_opt updates) (updatedAt job)\<rparr>"

record 'r JobManager =
  jobs :: "(string \<times> 'r ProcessingJob) list"
  processingQueue :: "string list"

definition maxConcurrentJobs :: nat where
  "maxConcurrentJobs = 5"

definition newJobManager :: "'r JobManager" where
  "newJobManager = \<lparr>jobs = [], processingQueue = []\<rparr>"

definition createJob ::
  "'r PartialJob \<Rightarrow> string \<Rightarrow> int \<Rightarrow> 'r JobManager \<Rightarrow> 'r ProcessingJob \<times> 'r JobManager" where
  "createJob jobData uuid now jm =
     (let job = spreadJob
                  \<lparr>job_id = (case id_opt jobData of
                                None \<Rightarrow> uuid
                              | Some i \<Rightarrow> if i \<noteq> [] then i else uuid),
                   videoUrl = videoUrl_opt jobData,
                   targetLanguage = targetLanguage_opt jobData,
                   status = PENDING,
                   progress = 0,
                   currentStage = VALIDATING_URL,
                   results = None,
                   error = None,
                   createdAt = now,
                   updatedAt = now\<rparr>
                  jobData
      in (job, jm\<lparr>jobs := AList.update (job_id job) job (jobs jm),
                   processingQueue := processingQueue jm @ [job_id job]\<rparr>))"

definition getJob :: "string \<Rightarrow> 'r JobManager \<Rightarrow> 'r ProcessingJob option" where
  "getJob jobId jm = map_of (jobs jm) jobId"

definition updateJob ::
  "string \<Rightarrow> 'r PartialJob \<Rightarrow> int \<Rightarrow> 'r JobManager \<Rightarrow> 'r ProcessingJob option \<times> 'r JobManager" where
  "updateJob jobId updates now jm =
     (case map_of (jobs jm) jobId of
        None \<Rightarrow> (None, jm)
      | Some job \<Rightarrow>
          (let updatedJob = (spreadJob job updates)\<lparr>updatedAt := now\<rparr>
           in (Some updatedJob, jm\<lparr>jobs := AList.update jobId updatedJob (jobs jm)\<rparr>)))"

definition cancelJob :: "string \<Rightarrow> int \<Rightarrow> 'r JobManager \<Rightarrow> bool \<times> 'r JobManager" where
  "cancelJob jobId now jm =
     (case map_of (jobs jm) jobId of
        None \<Rightarrow> (False, jm)
      | Some job \<Rightarrow>
          if status job = PENDING \<or> status job = PROCESSING then
            (let jm1 = snd (updateJob jobId
                              (noFields\<lparr>status_opt := Some FAILED,
                                        error_opt := Some ''Job cancelled by user''\<rparr>) now jm)
             in (True, jm1\<lparr>processingQueue := remove1 jobId (processingQueue jm1)\<rparr>))
          else (False, jm))"

definition getAllJobs :: "'r JobManager \<Rightarrow> 'r ProcessingJob list" where
  "getAllJobs jm = map snd (jobs jm)"

definition activeJobs :: "'r JobManager \<Rightarrow> nat" where
  "activeJobs jm = length (filter (\<lambda>job. status job = PROCESSING) (map snd (jobs jm)))"

definition processNextJob :: "int \<Rightarrow> 'r JobManager \<Rightarrow> 'r JobManager" where
  "processNextJob now jm =
     (if activeJobs jm \<ge> maxConcurrentJobs \<or> length (processingQueue jm) = 0 then jm
      else (case processingQueue jm of
              [] \<Rightarrow> jm
            | jobId # rest \<Rightarrow>
                (let jm1 = jm\<lparr>processingQueue := rest\<rparr>
                 in if jobId = [] then jm1
                    else (case map_of (jobs jm1) jobId of
                            None \<Rightarrow> jm1
                          | Some job \<Rightarrow>
                              if status job \<noteq> PENDING then jm1
                              else snd (updateJob jobId
                                          (noFields\<lparr>status_opt := Some PROCESSING,
                                                    currentStage_opt := Some VALIDATING_URL,
                                                    progress_opt := Some 5\<rparr>) now jm1)))))"

definition cleanupOldJobs :: "int \<Rightarrow> 'r JobManager \<Rightarrow> 'r JobManager" where
  "cleanupOldJobs now jm =
     (let cutoffTime = now - 3600000
      in jm\<lparr>jobs := filter (\<lambda>(jobId, job).
                 \<not> ((status job = COMPLETED \<or> status job = FAILED) \<and> updatedAt job < cutoffTime))
               (jobs jm)\<rparr>)"

definition shutdown :: "int \<Rightarrow> 'r JobManager \<Rightarrow> 'r JobManager" where
  "shutdown now jm =
     jm\<lparr>jobs := map (\<lambda>(jobId, job).
              if status job = PENDING \<or> status job = PROCESSING
              then (jobId, job\<lparr>status := FAILED, error := Some ''Server shutdown'', updatedAt := now\<rparr>)
              else (jobId, job))
            (jobs jm)\<rparr>"

datatype 'r JobOp =
  CreateJob "'r PartialJob" string int
| ProcessNextJob int
| CancelJob string int
| CleanupOldJobs int
| Shutdown int

fun step :: "'r JobOp \<Rightarrow> 'r JobManager \<Rightarrow> 'r JobManager" where
  "step (CreateJob jobData uuid now) jm = snd (createJob jobData uuid now jm)"
| "step (ProcessNextJob now) jm = processNextJob now jm"
| "step (CancelJob jobId now) jm = snd (cancelJob jobId now jm)"
| "step (CleanupOldJobs now) jm = cleanupOldJobs now jm"
| "step (Shutdown now) jm = shutdown now jm"

definition run :: "'r JobOp list \<Rightarrow> 'r JobManager \<Rightarrow> 'r JobManager" where
  "run ops jm = foldl (\<lambda>m op. step op m) jm ops"

subsection \<open>Runs of the manager observed from outside\<close>

text \<open>
  The identifiers submitted by a run are those that its createJob calls enqueue, in
  order. The identifiers admitted by a run are those whose status a processNextJob call
  moved to Processing, in order.
\<close>

definition submittedId :: "'r JobOp \<Rightarrow> string list" where
  "submittedId op =
     (case op of
        CreateJob jobData uuid now \<Rightarrow> [job_id (fst (createJob jobData uuid now newJobManager))]
      | _ \<Rightarrow> [])"

definition submissions :: "'r JobOp list \<Rightarrow> string list" where
  "submissions ops = concat (map submittedId ops)"

definition statusOf :: "'r JobManager \<Rightarrow> string \<Rightarrow> JobStatus option" where
  "statusOf jm k = map_option status (map_of (jobs jm) k)"

definition newlyProcessing :: "'r JobManager \<Rightarrow> 'r JobManager \<Rightarrow> string list" where
  "newlyProcessing jm jm' =
     filter (\<lambda>k. statusOf jm k \<noteq> Some PROCESSING \<and> statusOf jm' k = Some PROCESSING)
            (map fst (jobs jm'))"

definition admittedBy :: "'r JobOp \<Rightarrow> 'r JobManager \<Rightarrow> string list" where
  "admittedBy op jm =
     (case op of ProcessNextJob now \<Rightarrow> newlyProcessing jm (step op jm) | _ \<Rightarrow> [])"

fun admissions :: "'r JobOp list \<Rightarrow> 'r JobManager \<Rightarrow> string list" where
  "admissions [] jm = []"
| "admissions (op # ops) jm = admittedBy op jm @ admissions ops (step op jm)"

definition createsProcessing :: "'r JobOp \<Rightarrow> bool" where
  "createsProcessing op =
     (case op of CreateJob jobData uuid now \<Rightarrow> status_opt jobData = Some PROCESSING | _ \<Rightarrow> False)"

definition processingJobData :: "unit PartialJob" where
  "processingJobData = noFields\<lparr>status_opt := Some PROCESSING\<rparr>"

definition sixProcessingJobs :: "unit JobOp list" where
  "sixProcessingJobs =
     [CreateJob processingJobData ''job-1'' 0, CreateJob processingJobData ''job-2'' 0,
      CreateJob processingJobData ''job-3'' 0, CreateJob processingJobData ''job-4'' 0,
      CreateJob processingJobData ''job-5'' 0, CreateJob processingJobData ''job-6'' 0]"

definition countProcessing :: "(string \<times> 'r ProcessingJob) list \<Rightarrow> nat" where
  "countProcessing al = length (filter (\<lambda>job. status job = PROCESSING) (map snd al))"

definition keysDistinct :: "'r JobManager \<Rightarrow> bool" where
  "keysDistinct jm = distinct (map fst (jobs jm))"

definition pendingManager :: "unit JobManager" where
  "pendingManager = snd (createJob noFields ''job-1'' 0 newJobManager)"

definition emptyIdManager :: "unit JobManager" where
  "emptyIdManager = snd (createJob (noFields\<lparr>id_opt := Some []\<rparr>) ''uuid-1'' 0 newJobManager)"

definition duplicateIdManager :: "unit JobManager" where
  "duplicateIdManager =
     run [CreateJob (noFields\<lparr>id_opt := Some ''dup''\<rparr>) ''uuid-1'' 0,
          CreateJob (noFields\<lparr>id_opt := Some ''x''\<rparr>) ''uuid-2'' 0,
          CreateJob (noFields\<lparr>id_opt := Some ''dup''\<rparr>) ''uuid-3'' 0] newJobManager"

definition processingManager :: "unit JobManager" where
  "processingManager = processNextJob 1 pendingManager"

definition completedManager :: "unit JobManager" where
  "completedManager =
     snd (updateJob ''job-1'' (noFields\<lparr>status_opt := Some COMPLETED\<rparr>) 5 pendingManager)"

definition sampleJob :: "JobStatus \<Rightarrow> int \<Rightarrow> unit ProcessingJob" where
  "sampleJob st t =
     \<lparr>job_id = ''job-1'', videoUrl = None, targetLanguage = None, status = st, progress = 0,
      currentStage = VALIDATING_URL, results = None, error = None, createdAt = 0, updatedAt = t\<rparr>"

definition sevenJobs :: "unit JobOp list" where
  "sevenJobs =
     [CreateJob noFields ''job-1'' 0, CreateJob noFields ''job-2'' 0, CreateJob noFields ''job-3'' 0,
      CreateJob noFields ''job-4'' 0, CreateJob noFields ''job-5'' 0, CreateJob noFields ''job-6'' 0,
      CreateJob noFields ''job-7'' 0,
      ProcessNextJob 1, ProcessNextJob 2, ProcessNextJob 3, ProcessNextJob 4, ProcessNextJob 5,
      ProcessNextJob 6, CancelJob ''job-2'' 7, ProcessNextJob 8]"

section \<open>Properties of splitIntoChunks\<close>

lemma lastIndexDown_bound:
  "lastIndexDown s d k = p \<Longrightarrow> 0 \<le> p \<Longrightarrow> p + int (length d) \<le> int (length s)"
  by (induction k) (auto simp: matchesAt_def split: if_splits)

lemma lastIndexOf_bound:
  "0 \<le> lastIndexOf s d i \<Longrightarrow> lastIndexOf s d i + int (length d) \<le> int (length s)"
  unfolding lastIndexOf_def
  by (auto split: if_splits dest: lastIndexDown_bound [OF refl])

lemma findLastOccurrence_bound:
  assumes "0 \<le> start" and "start \<le> int (length text)"
  shows "findLastOccurrence text ds start e \<le> int (length text)"
proof -
  have "0 \<le> acc \<Longrightarrow> acc \<le> int (length text) \<Longrightarrow>
        foldl (\<lambda>lastPosition delimiter.
              (let position = lastIndexOf text delimiter e
               in if position > lastPosition \<and> position \<le> e
                  then position + int (length delimiter)
                  else lastPosition)) acc ds \<le> int (length text)" for acc
  proof (induction ds arbitrary: acc)
    case Nil
    then show ?case by simp
  next
    case (Cons d ds)
    show ?case
    proof (cases "lastIndexOf text d e > acc \<and> lastIndexOf text d e \<le> e")
      case True
      then have nonneg: "0 \<le> lastIndexOf text d e" using Cons.prems by linarith
      from lastIndexOf_bound [OF nonneg]
      have "lastIndexOf text d e + int (length d) \<le> int (length text)" .
      moreover have "0 \<le> lastIndexOf text d e + int (length d)" using nonneg by simp
      ultimately show ?thesis using True Cons.IH by (simp add: Let_def)
    next
      case False
      then show ?thesis using Cons by (auto simp: Let_def)
    qed
  qed
  then show ?thesis using assms unfolding findLastOccurrence_def by blast
qed

lemma chunkEnd_bound:
  assumes "0 \<le> cur" and "cur \<le> int (length text)"
  shows "chunkEnd text m cur \<le> int (length text)"
  using findLastOccurrence_bound [OF assms] unfolding chunkEnd_def
  by (simp add: Let_def)

lemma splitLoop_never_returns:
  assumes "splitLoop s m ov cur chunks = Some r"
  shows "\<not> (0 < ov \<and> 0 \<le> cur \<and> cur < int (length s))"
proof (rule splitLoop.raw_induct
    [where P = "\<lambda>s m ov cur chunks r. \<not> (0 < ov \<and> 0 \<le> cur \<and> cur < int (length s))",
     OF _ assms])
  fix f :: "string \<Rightarrow> int \<Rightarrow> int \<Rightarrow> int \<Rightarrow> string list \<Rightarrow> string list option"
  fix s m ov cur chunks r
  assume IH: "\<And>s m ov cur chunks r. f s m ov cur chunks = Some r \<Longrightarrow>
                \<not> (0 < ov \<and> 0 \<le> cur \<and> cur < int (length s))"
  assume eq: "(if cur < int (length s)
      then let endPosition = chunkEnd s m cur;
               chunk = trim (substring s cur endPosition)
           in f s m ov (max cur (endPosition - ov)) (chunks @ [chunk])
      else Some chunks) = Some r"
  show "\<not> (0 < ov \<and> 0 \<le> cur \<and> cur < int (length s))"
  proof
    assume inv: "0 < ov \<and> 0 \<le> cur \<and> cur < int (length s)"
    then have bound: "chunkEnd s m cur \<le> int (length s)"
      using chunkEnd_bound [of cur s m] by simp
    from eq inv
    have step: "f s m ov (max cur (chunkEnd s m cur - ov))
                  (chunks @ [trim (substring s cur (chunkEnd s m cur))]) = Some r"
      by (simp add: Let_def)
    from IH [OF step] inv bound show False by auto
  qed
qed

lemma splitLoop_diverges:
  "0 < ov \<Longrightarrow> 0 \<le> cur \<Longrightarrow> cur < int (length s) \<Longrightarrow>
   splitLoop s m ov cur chunks = None"
  using splitLoop_never_returns [of s m ov cur chunks]
  by (cases "splitLoop s m ov cur chunks") auto

lemma splitIntoChunks_long_diverges:
  "0 < ov \<Longrightarrow> s \<noteq> [] \<Longrightarrow> m < int (length s) \<Longrightarrow> splitIntoChunks s m ov = None"
  unfolding splitIntoChunks_def
  by (auto intro: splitLoop_diverges)

text \<open>
  C10. A text whose length is at most \<open>maxChunkSize\<close> is returned as exactly one chunk,
  equal to the text itself.
\<close>
theorem splitIntoChunks_short:
  "int (length text) \<le> maxChunkSize \<Longrightarrow>
   splitIntoChunks text maxChunkSize overlapSize = Some [text]"
  by (simp add: splitIntoChunks_def)

theorem splitIntoChunks_short_witness:
  "int (length ''Hello world'') \<le> 1500 \<and>
   splitIntoChunks ''Hello world'' 1500 200 = Some [''Hello world'']"
  using splitIntoChunks_short [of "''Hello world''" 1500 200] by simp

text \<open>
  C1. For a text of 5000 characters, split with \<open>maxChunkSize = 1500\<close> and
  \<open>overlapSize = 200\<close>, the while loop of splitIntoChunks never exits: the next start position
  is at most \<open>length - overlapSize\<close>, so it never reaches the end of the text. The function
  returns no list of chunks.
\<close>
theorem splitIntoChunks_5000_diverges:
  "splitIntoChunks (replicate 5000 (CHR ''a'')) 1500 200 = None"
  by (rule splitIntoChunks_long_diverges) simp_all

section \<open>Properties of mergeChunks\<close>

lemma zip_as_nth_map:
  "map (\<lambda>i. (xs ! i, ys ! i)) [0..<min (length xs) (length ys)] = zip xs ys"
  by (simp add: list_eq_iff_nth_eq)

lemma count_positions_zip:
  "length (filter (\<lambda>i. xs ! i = ys ! i) [0..<min (length xs) (length ys)]) =
   length (filter (\<lambda>(x, y). x = y) (zip xs ys))"
proof -
  have "length (filter (\<lambda>(x, y). x = y) (zip xs ys)) =
        length (filter (\<lambda>(x, y). x = y)
          (map (\<lambda>i. (xs ! i, ys ! i)) [0..<min (length xs) (length ys)]))"
    by (simp only: zip_as_nth_map)
  also have "\<dots> = length (filter (\<lambda>i. xs ! i = ys ! i) [0..<min (length xs) (length ys)])"
    by (simp add: filter_map comp_def)
  finally show ?thesis by simp
qed

lemma calculateSimilarity_matchRatio:
  "a \<noteq> [] \<Longrightarrow> b \<noteq> [] \<Longrightarrow> calculateSimilarity a b = matchRatio toLowerCase a b"
  unfolding calculateSimilarity_def matchRatio_def Let_def
  using count_positions_zip [of "toLowerCase a" "toLowerCase b"]
  by (simp add: toLowerCase_def)

lemma substringFrom_nat: "substringFrom s (int k) = drop k s"
  by (simp add: substringFrom_def clampIndex_def min_def)

lemma substring_prefix: "substring s 0 (int k) = take k s"
  by (simp add: substring_def clampIndex_def Let_def min_def)

lemma toInteger_of_nat: "toInteger (of_nat k) = int k"
  by (simp add: toInteger_def)

lemma toInteger_of_nat_diff: "m \<le> n \<Longrightarrow> toInteger (of_nat n - of_nat m) = int (n - m)"
  using toInteger_of_nat [of "n - m"] by simp

lemma overlapLoop_whole:
  "m \<le> length first \<Longrightarrow> m \<le> length second \<Longrightarrow>
   overlapLoop first second t (of_nat m) =
   of_nat (case find (\<lambda>k. t \<le> matchRatio toLowerCase (drop (length first - k) first) (take k second))
                     (candidateLengths m)
           of Some k \<Rightarrow> k | None \<Rightarrow> 0)"
proof (induction m rule: candidateLengths.induct)
  case (1 m)
  show ?case
  proof (cases "10 \<le> m")
    case False
    then have "\<not> (10::rat) \<le> of_nat m"
      by (metis of_nat_le_iff of_nat_numeral)
    with False show ?thesis
      by (simp add: overlapLoop.simps [of _ _ _ "of_nat m"] candidateLengths.simps [of m])
  next
    case True
    then have ge: "(10::rat) \<le> of_nat m"
      by (metis of_nat_le_iff of_nat_numeral)
    have ne1: "drop (length first - m) first \<noteq> []" using True 1(2) by simp
    have ne2: "take m second \<noteq> []" using True 1(3) by auto
    have a1: "substringFrom first (toInteger (of_nat (length first) - of_nat m)) =
              drop (length first - m) first"
      using 1(2) by (simp only: toInteger_of_nat_diff substringFrom_nat)
    have a2: "substring second 0 (toInteger (of_nat m)) = take m second"
      by (simp only: toInteger_of_nat substring_prefix)
    have sim: "calculateSimilarity (substringFrom first (toInteger (of_nat (length first) - of_nat m)))
                 (substring second 0 (toInteger (of_nat m))) =
               matchRatio toLowerCase (drop (length first - m) first) (take m second)"
      unfolding a1 a2 by (rule calculateSimilarity_matchRatio [OF ne1 ne2])
    have dec: "(of_nat m :: rat) - 10 = of_nat (m - 10)" using True by simp
    have IH: "overlapLoop first second t (of_nat (m - 10)) =
      of_nat (case find (\<lambda>k. t \<le> matchRatio toLowerCase (drop (length first - k) first) (take k second))
                     (candidateLengths (m - 10))
           of Some k \<Rightarrow> k | None \<Rightarrow> 0)"
      using 1(1) [OF True] 1(2,3) by simp
    have step: "overlapLoop first second t (of_nat m) =
        (if t \<le> matchRatio toLowerCase (drop (length first - m) first) (take m second)
         then of_nat m else overlapLoop first second t (of_nat (m - 10)))"
      by (subst overlapLoop.simps) (simp only: ge sim dec Let_def if_True)
    have cands: "candidateLengths m = m # candidateLengths (m - 10)"
      using True by (subst candidateLengths.simps) simp
    show ?thesis
      unfolding step cands IH by simp
  qed
qed

lemma first_candidate_whole:
  assumes "n mod 3 = 0 \<or> 600 \<le> (n::nat)"
  shows "min 200 (of_nat n / 3 :: rat) = of_nat (min 200 (n div 3))"
proof -
  from assms show ?thesis
  proof
    assume "n mod 3 = 0"
    then obtain k where "n = 3 * k" by (auto simp: mod_eq_0_iff_dvd)
    then show ?thesis by (simp add: min_def)
  next
    assume "600 \<le> n"
    then have "200 \<le> n div 3" by simp
    moreover from \<open>600 \<le> n\<close> have "(200::rat) \<le> of_nat n / 3"
      by (simp add: le_divide_eq)
    ultimately show ?thesis by (simp add: min_def)
  qed
qed

lemma findOverlapSize_whole:
  assumes "min (length first) (length second) mod 3 = 0 \<or> 600 \<le> min (length first) (length second)"
  shows "findOverlapSize first second t = of_nat (spec_overlap toLowerCase first second t)"
proof -
  let ?m = "min 200 (min (length first) (length second) div 3)"
  have "?m \<le> length first" "?m \<le> length second" by auto
  then show ?thesis
    unfolding findOverlapSize_def spec_overlap_def Let_def first_candidate_whole [OF assms]
    by (rule overlapLoop_whole)
qed

lemma overlapLoop_below_10: "x < 10 \<Longrightarrow> overlapLoop first second t x = 0"
  by (subst overlapLoop.simps) simp

lemma findOverlapSize_short:
  assumes "min (length first) (length second) < 30"
  shows "findOverlapSize first second t = of_nat (spec_overlap toLowerCase first second t)"
proof -
  let ?n = "min (length first) (length second)"
  have "(of_nat ?n :: rat) < 30" using assms by (metis of_nat_less_iff of_nat_numeral)
  then have small: "min 200 (of_nat ?n / 3 :: rat) < 10" by (simp add: min_def)
  have "?n div 3 < 10" using assms by simp
  then have "candidateLengths (min 200 (?n div 3)) = []"
    by (subst candidateLengths.simps) (simp add: min_def)
  then have "spec_overlap toLowerCase first second t = 0"
    by (simp add: spec_overlap_def)
  moreover have "findOverlapSize first second t = 0"
    unfolding findOverlapSize_def Let_def by (rule overlapLoop_below_10 [OF small])
  ultimately show ?thesis by simp
qed

lemma findOverlapSize_noFraction:
  assumes "min (length first) (length second) mod 3 = 0
           \<or> min (length first) (length second) < 30
           \<or> 600 \<le> min (length first) (length second)"
  shows "findOverlapSize first second t = of_nat (spec_overlap toLowerCase first second t)"
proof (cases "min (length first) (length second) < 30")
  case True
  then show ?thesis by (rule findOverlapSize_short)
next
  case False
  with assms have "min (length first) (length second) mod 3 = 0
                   \<or> 600 \<le> min (length first) (length second)" by blast
  then show ?thesis by (rule findOverlapSize_whole)
qed

lemma mergeLoop_noFraction:
  "noFractionFrom acc cs t \<Longrightarrow> mergeLoop acc cs t = spec_mergeFrom toLowerCase acc cs t"
proof (induction cs arbitrary: acc)
  case Nil
  then show ?case by simp
next
  case (Cons c cs)
  from Cons.prems
  have step: "findOverlapSize acc c t = of_nat (spec_overlap toLowerCase acc c t)"
    by (intro findOverlapSize_noFraction) simp
  from Cons.prems
  have rest: "noFractionFrom (acc @ drop (spec_overlap toLowerCase acc c t) c) cs t" by simp
  show ?case
    using Cons.IH [OF rest] by (simp add: step toInteger_of_nat substringFrom_nat Let_def)
qed

text \<open>
  C2 (as worded). The merge of the specification, with the match ratio taken on the
  characters as they are, differs from mergeChunks in two ways. The code lower-cases both
  substrings before it compares them, so an overlap that differs only in case is detected
  and removed (first example, lengths 30 and 30). And the code does not round one third of
  the shorter length: for the lengths 31 and 31 the candidate is 31/3, the trailing
  substring of the accumulator has 11 characters, the leading substring of the chunk 10,
  and a true overlap of ten characters is missed, whether or not case is ignored (second
  example).
\<close>
theorem mergeChunks_counterexample:
  "mergeChunks [''01234567890123456789ABCDEFGHIJ'', ''abcdefghijxxxxxxxxxxxxxxxxxxxx''] (1/2)
   \<noteq> spec_mergeChunks id [''01234567890123456789ABCDEFGHIJ'', ''abcdefghijxxxxxxxxxxxxxxxxxxxx''] (1/2)
   \<and>
   mergeChunks [''012345678901234567890abcdefghij'', ''abcdefghijxxxxxxxxxxxxxxxxxxxxx''] (1/2)
   \<noteq> spec_mergeChunks id [''012345678901234567890abcdefghij'', ''abcdefghijxxxxxxxxxxxxxxxxxxxxx''] (1/2)
   \<and>
   mergeChunks [''012345678901234567890abcdefghij'', ''abcdefghijxxxxxxxxxxxxxxxxxxxxx''] (1/2)
   \<noteq> spec_mergeChunks toLowerCase
        [''012345678901234567890abcdefghij'', ''abcdefghijxxxxxxxxxxxxxxxxxxxxx''] (1/2)"
  by code_simp

text \<open>
  C2 (amended). Whenever no step of the merge probes a fractional candidate length (at
  every step the shorter of accumulator and chunk has a length divisible by 3, below 30 or
  of at least 600), mergeChunks returns the first chunk extended by each later chunk with its
  detected overlap removed, the detected overlap being the largest candidate length, from
  \<open>min 200 (shorter div 3)\<close> down to 10 in steps of 10, at which the position-wise match
  ratio of the lower-cased trailing substring of the accumulator and the lower-cased leading
  substring of the chunk reaches the threshold, and 0 when no candidate does.
\<close>
theorem mergeChunks_no_fraction:
  "noFractionalCandidate chunks t \<Longrightarrow>
   mergeChunks chunks t = spec_mergeChunks toLowerCase chunks t"
proof (cases chunks)
  case Nil
  then show ?thesis by (simp add: mergeChunks_def spec_mergeChunks_def)
next
  case (Cons c cs)
  assume "noFractionalCandidate chunks t"
  with Cons have "noFractionFrom c cs t" by (simp add: noFractionalCandidate_def)
  from mergeLoop_noFraction [OF this] Cons show ?thesis
    by (cases cs) (simp_all add: mergeChunks_def spec_mergeChunks_def)
qed

theorem mergeChunks_no_fraction_witness:
  "noFractionalCandidate [''01234567890123456789ABCDEFGHIJ'', ''abcdefghijxxxxxxxxxxxxxxxxxxxx'', ''Xxxxxxxxxxyyyyyyy''] (1/2) \<and>
   mergeChunks [''01234567890123456789ABCDEFGHIJ'', ''abcdefghijxxxxxxxxxxxxxxxxxxxx'', ''Xxxxxxxxxxyyyyyyy''] (1/2) =
   ''01234567890123456789ABCDEFGHIJxxxxxxxxxxxxxxxxxxxxXxxxxxxxxxyyyyyyy'' \<and>
   noFractionalCandidate [''ab'', ''cd''] (1/2) \<and>
   mergeChunks [''ab'', ''cd''] (1/2) = ''abcd''"
proof -
  have w: "noFractionalCandidate [''01234567890123456789ABCDEFGHIJ'', ''abcdefghijxxxxxxxxxxxxxxxxxxxx'', ''Xxxxxxxxxxyyyyyyy''] (1/2)"
    by code_simp
  have v: "spec_mergeChunks toLowerCase [''01234567890123456789ABCDEFGHIJ'', ''abcdefghijxxxxxxxxxxxxxxxxxxxx'', ''Xxxxxxxxxxyyyyyyy''] (1/2) =
    ''01234567890123456789ABCDEFGHIJxxxxxxxxxxxxxxxxxxxxXxxxxxxxxxyyyyyyy''"
    by code_simp
  have w2: "noFractionalCandidate [''ab'', ''cd''] (1/2)"
    by code_simp
  have v2: "spec_mergeChunks toLowerCase [''ab'', ''cd''] (1/2) = ''abcd''"
    by code_simp
  show ?thesis
    using w v w2 v2 mergeChunks_no_fraction [OF w] mergeChunks_no_fraction [OF w2] by simp
qed

text \<open>
  When the shorter length is not divisible by 3 the candidate lengths are fractions: the
  trailing substring of the accumulator is then one character longer than the leading
  substring of the chunk, and the two are compared from their first characters. A true
  overlap of ten characters is missed in this example.
\<close>
lemma mergeChunks_fractional_example:
  "mergeChunks [''012345678901234567890abcdefghij'', ''abcdefghijxxxxxxxxxxxxxxxxxxxxx''] (1/2)
   = ''012345678901234567890abcdefghijabcdefghijxxxxxxxxxxxxxxxxxxxxx''"
  by code_simp

section \<open>Properties of executeWithRetry\<close>

lemma default_config [simp]:
  "maxAttempts (spreadOptions DEFAULT_OPTIONS noOptions) = 3"
  "retryCondition (spreadOptions DEFAULT_OPTIONS noOptions) = defaultRetryCondition"
  "baseDelay (spreadOptions DEFAULT_OPTIONS noOptions) = 1000"
  "maxDelay (spreadOptions DEFAULT_OPTIONS noOptions) = 30000"
  "backoffFactor (spreadOptions DEFAULT_OPTIONS noOptions) = 2"
  by (simp_all add: spreadOptions_def DEFAULT_OPTIONS_def noOptions_def)

text \<open>
  C3. Under the default options (three attempts): an operation that fails twice with a
  retryable error and then succeeds is invoked exactly three times and its value is
  returned; an operation that fails with a non-retryable error is invoked exactly once and
  that error is raised; when the predicate rejects the second error, or when all three
  attempts fail, the error of the last invocation is raised.
\<close>
theorem executeWithRetry_default:
  "(op1 s0 = (Inl e1, s1) \<and> defaultRetryCondition e1 \<and>
    op1 s1 = (Inl e2, s2) \<and> defaultRetryCondition e2 \<and>
    op1 s2 = (Inr v, s3)
    \<longrightarrow> outcome (executeWithRetry op1 noOptions s0) = Inr v \<and>
        invocations (executeWithRetry op1 noOptions s0) = 3) \<and>
   (op2 t0 = (Inl e, t1) \<and> \<not> defaultRetryCondition e
    \<longrightarrow> outcome (executeWithRetry op2 noOptions t0) = Inl (Some e) \<and>
        invocations (executeWithRetry op2 noOptions t0) = 1) \<and>
   (op3 u0 = (Inl f1, u1) \<and> defaultRetryCondition f1 \<and>
    op3 u1 = (Inl f2, u2) \<and> \<not> defaultRetryCondition f2
    \<longrightarrow> outcome (executeWithRetry op3 noOptions u0) = Inl (Some f2) \<and>
        invocations (executeWithRetry op3 noOptions u0) = 2) \<and>
   (op4 w0 = (Inl g1, w1) \<and> defaultRetryCondition g1 \<and>
    op4 w1 = (Inl g2, w2) \<and> defaultRetryCondition g2 \<and>
    op4 w2 = (Inl g3, w3)
    \<longrightarrow> outcome (executeWithRetry op4 noOptions w0) = Inl (Some g3) \<and>
        invocations (executeWithRetry op4 noOptions w0) = 3)"
  by (simp add: executeWithRetry_def retryLoop.simps Let_def)

theorem executeWithRetry_default_witness:
  "defaultRetryCondition networkError \<and> \<not> defaultRetryCondition validationError \<and>
   outcome (executeWithRetry
     (\<lambda>n::nat. (if n < 2 then Inl networkError else Inr ''success'', Suc n)) noOptions 0)
     = Inr ''success'' \<and>
   invocations (executeWithRetry
     (\<lambda>n::nat. (if n < 2 then Inl networkError else Inr ''success'', Suc n)) noOptions 0) = 3 \<and>
   outcome (executeWithRetry
     (\<lambda>n::nat. (Inl validationError :: js_error + string, Suc n)) noOptions 0)
     = Inl (Some validationError) \<and>
   invocations (executeWithRetry
     (\<lambda>n::nat. (Inl validationError :: js_error + string, Suc n)) noOptions 0) = 1 \<and>
   outcome (executeWithRetry
     (\<lambda>n::nat. (if n = 0 then Inl networkError else Inl validationError :: js_error + string, Suc n))
     noOptions 0) = Inl (Some validationError) \<and>
   invocations (executeWithRetry
     (\<lambda>n::nat. (if n = 0 then Inl networkError else Inl validationError :: js_error + string, Suc n))
     noOptions 0) = 2 \<and>
   outcome (executeWithRetry
     (\<lambda>n::nat. (Inl networkError :: js_error + string, Suc n)) noOptions 0)
     = Inl (Some networkError) \<and>
   invocations (executeWithRetry
     (\<lambda>n::nat. (Inl networkError :: js_error + string, Suc n)) noOptions 0) = 3"
proof -
  have r: "defaultRetryCondition networkError"
    by (simp add: defaultRetryCondition_def networkError_def)
  have nr: "\<not> defaultRetryCondition validationError"
    by (simp add: defaultRetryCondition_def validationError_def truthy_def messageIncludes_def)
  show ?thesis
    using r nr
      executeWithRetry_default
        [where ?op1.0 = "\<lambda>n::nat. (if n < 2 then Inl networkError else Inr ''success'', Suc n)"
           and ?s0.0 = 0 and ?e1.0 = networkError and ?s1.0 = 1 and ?e2.0 = networkError
           and ?s2.0 = 2 and v = "''success''" and ?s3.0 = 3
           and ?op2.0 = "\<lambda>n::nat. (Inl validationError :: js_error + string, Suc n)"
           and ?t0.0 = 0 and e = validationError and ?t1.0 = 1
           and ?op3.0 = "\<lambda>n::nat. (if n = 0 then Inl networkError else Inl validationError
                                    :: js_error + string, Suc n)"
           and ?u0.0 = 0 and ?f1.0 = networkError and ?u1.0 = 1 and ?f2.0 = validationError
           and ?u2.0 = 2
           and ?op4.0 = "\<lambda>n::nat. (Inl networkError :: js_error + string, Suc n)"
           and ?w0.0 = 0 and ?g1.0 = networkError and ?w1.0 = 1 and ?g2.0 = networkError
           and ?w2.0 = 2 and ?g3.0 = networkError and ?w3.0 = 3]
    by simp
qed

section \<open>Properties of cancelJob\<close>

lemma spread_cancel:
  "(spreadJob job (noFields\<lparr>status_opt := Some FAILED, error_opt := Some msg\<rparr>))\<lparr>updatedAt := now\<rparr>
   = job\<lparr>status := FAILED, error := Some msg, updatedAt := now\<rparr>"
  by (simp add: spreadJob_def noFields_def orElse_def orElseOpt_def)

lemma remove1_single:
  "count_list xs x \<le> Suc 0 \<Longrightarrow> x \<notin> set (remove1 x xs)"
  by (induction xs) (auto simp: count_list_0_iff split: if_splits)

text \<open>
  C6 (as worded). createJob enqueues an id again when it is submitted again; cancelJob
  removes one occurrence only. After the submissions dup, x, dup, cancelling dup returns
  true and dup is still in the queue.
\<close>
theorem cancelJob_counterexample:
  "statusOf duplicateIdManager ''dup'' = Some PENDING \<and>
   fst (cancelJob ''dup'' 7 duplicateIdManager) = True \<and>
   processingQueue (snd (cancelJob ''dup'' 7 duplicateIdManager)) = [''x'', ''dup'']"
  by code_simp

text \<open>
  C6 (amended). For a job of the registry whose status is Pending or Processing, cancelJob
  returns true, stores the job with status Failed, the error message of a cancellation and
  a new update time, and removes the first occurrence of its id from the processing queue,
  so that the id is no longer queued whenever it was queued at most once. For a job whose
  status is Completed, cancelJob returns false and changes nothing.
\<close>
theorem cancelJob_spec:
  assumes "map_of (jobs jm) jobId = Some job"
  shows "(status job = PENDING \<or> status job = PROCESSING \<longrightarrow>
            fst (cancelJob jobId now jm) = True \<and>
            map_of (jobs (snd (cancelJob jobId now jm))) jobId =
              Some (job\<lparr>status := FAILED, error := Some ''Job cancelled by user'',
                         updatedAt := now\<rparr>) \<and>
            processingQueue (snd (cancelJob jobId now jm)) = remove1 jobId (processingQueue jm) \<and>
            (count_list (processingQueue jm) jobId \<le> 1 \<longrightarrow>
               jobId \<notin> set (processingQueue (snd (cancelJob jobId now jm))))) \<and>
         (status job = COMPLETED \<longrightarrow> cancelJob jobId now jm = (False, jm))"
  using assms
  by (auto simp: cancelJob_def updateJob_def Let_def spread_cancel update_conv'
           dest: remove1_single)

theorem cancelJob_spec_witness:
  "map_of (jobs pendingManager) ''job-1'' = Some (sampleJob PENDING 0) \<and>
   count_list (processingQueue pendingManager) ''job-1'' \<le> 1 \<and>
   fst (cancelJob ''job-1'' 7 pendingManager) = True \<and>
   map_of (jobs (snd (cancelJob ''job-1'' 7 pendingManager))) ''job-1'' =
     Some ((sampleJob FAILED 7)\<lparr>error := Some ''Job cancelled by user''\<rparr>) \<and>
   processingQueue (snd (cancelJob ''job-1'' 7 pendingManager)) = [] \<and>
   ''job-1'' \<notin> set (processingQueue (snd (cancelJob ''job-1'' 7 pendingManager))) \<and>
   map_option status (map_of (jobs processingManager) ''job-1'') = Some PROCESSING \<and>
   fst (cancelJob ''job-1'' 7 processingManager) = True \<and>
   map_option status (map_of (jobs (snd (cancelJob ''job-1'' 7 processingManager))) ''job-1'')
     = Some FAILED \<and>
   map_of (jobs completedManager) ''job-1'' = Some (sampleJob COMPLETED 5) \<and>
   cancelJob ''job-1'' 7 completedManager = (False, completedManager)"
proof -
  have p: "map_of (jobs pendingManager) ''job-1'' = Some (sampleJob PENDING 0)"
    by code_simp
  have c: "map_of (jobs completedManager) ''job-1'' = Some (sampleJob COMPLETED 5)"
    by code_simp
  have r: "map_of (jobs processingManager) ''job-1'' =
           Some ((sampleJob PROCESSING 1)\<lparr>progress := 5\<rparr>)"
    by code_simp
  have pq: "processingQueue pendingManager = [''job-1'']"
    by code_simp
  show ?thesis
    using p c r pq cancelJob_spec [OF p, of 7] cancelJob_spec [OF c, of 7]
      cancelJob_spec [OF r, of 7]
    by (simp add: sampleJob_def)
qed

section \<open>The concurrency gate and the order of admission\<close>

lemma activeJobs_count: "activeJobs jm = countProcessing (jobs jm)"
  by (simp add: activeJobs_def countProcessing_def)

lemma count_update_le_Suc:
  "countProcessing (AList.update k v al) \<le> Suc (countProcessing al)"
  by (induction al) (auto simp: countProcessing_def)

lemma count_update_other:
  "status v \<noteq> PROCESSING \<Longrightarrow> countProcessing (AList.update k v al) \<le> countProcessing al"
  by (induction al) (auto simp: countProcessing_def)

lemma count_filter_le: "countProcessing (filter P al) \<le> countProcessing al"
  by (induction al) (auto simp: countProcessing_def)

lemma count_shutdown:
  "countProcessing (map (\<lambda>(jobId, job).
              if status job = PENDING \<or> status job = PROCESSING
              then (jobId, job\<lparr>status := FAILED, error := e, updatedAt := now\<rparr>)
              else (jobId, job)) al) \<le> countProcessing al"
  by (induction al) (auto simp: countProcessing_def split: if_splits)

lemma status_spread:
  "status (spreadJob job updates) = orElse (status_opt updates) (status job)"
  by (simp add: spreadJob_def)

lemma createJob_active:
  "status_opt jobData \<noteq> Some PROCESSING \<Longrightarrow>
   activeJobs (snd (createJob jobData uuid now jm)) \<le> activeJobs jm"
  unfolding activeJobs_count createJob_def Let_def
  by (cases "status_opt jobData")
     (auto intro!: count_update_other simp: status_spread orElse_def)

lemma cancelJob_active: "activeJobs (snd (cancelJob jobId now jm)) \<le> activeJobs jm"
  unfolding activeJobs_count cancelJob_def updateJob_def Let_def
  by (auto split: option.splits intro!: count_update_other
           simp: status_spread orElse_def noFields_def)

lemma processNextJob_active:
  "activeJobs jm \<le> maxConcurrentJobs \<Longrightarrow> activeJobs (processNextJob now jm) \<le> maxConcurrentJobs"
proof -
  assume le: "activeJobs jm \<le> maxConcurrentJobs"
  show ?thesis
  proof (cases "activeJobs jm \<ge> maxConcurrentJobs")
    case True
    then show ?thesis using le by (simp add: processNextJob_def)
  next
    case False
    then have lt: "countProcessing (jobs jm) < maxConcurrentJobs"
      by (simp add: activeJobs_count)
    have upd: "countProcessing (AList.update k v (jobs jm)) \<le> maxConcurrentJobs" for k v
      using count_update_le_Suc [of k v "jobs jm"] lt by linarith
    show ?thesis
      using le upd
      by (auto simp: processNextJob_def updateJob_def Let_def activeJobs_count
               split: list.splits option.splits)
  qed
qed

lemma cleanupOldJobs_active: "activeJobs (cleanupOldJobs now jm) \<le> activeJobs jm"
  unfolding activeJobs_count cleanupOldJobs_def Let_def
  by (simp add: count_filter_le)

lemma shutdown_active: "activeJobs (shutdown now jm) \<le> activeJobs jm"
  unfolding activeJobs_count shutdown_def
  by (simp add: count_shutdown)

lemma step_active:
  "\<not> createsProcessing op \<Longrightarrow> activeJobs jm \<le> maxConcurrentJobs \<Longrightarrow>
   activeJobs (step op jm) \<le> maxConcurrentJobs"
proof (cases op)
  case (CreateJob jobData uuid now)
  assume "\<not> createsProcessing op" "activeJobs jm \<le> maxConcurrentJobs"
  with CreateJob createJob_active [of jobData uuid now jm] show ?thesis
    by (simp add: createsProcessing_def)
next
  case (ProcessNextJob now)
  assume "activeJobs jm \<le> maxConcurrentJobs"
  with ProcessNextJob show ?thesis by (simp add: processNextJob_active)
next
  case (CancelJob jobId now)
  assume "activeJobs jm \<le> maxConcurrentJobs"
  with CancelJob cancelJob_active [of jobId now jm] show ?thesis by simp
next
  case (CleanupOldJobs now)
  assume "activeJobs jm \<le> maxConcurrentJobs"
  with CleanupOldJobs cleanupOldJobs_active [of now jm] show ?thesis by simp
next
  case (Shutdown now)
  assume "activeJobs jm \<le> maxConcurrentJobs"
  with Shutdown shutdown_active [of now jm] show ?thesis by simp
qed

lemma run_active:
  "\<forall>op \<in> set ops. \<not> createsProcessing op \<Longrightarrow> activeJobs jm \<le> maxConcurrentJobs \<Longrightarrow>
   activeJobs (run ops jm) \<le> maxConcurrentJobs"
  unfolding run_def
  by (induction ops arbitrary: jm) (auto intro: step_active)

lemma run_prefix_active:
  assumes "\<forall>op \<in> set ops. \<not> createsProcessing op"
  shows "activeJobs (run (take n ops) newJobManager) \<le> maxConcurrentJobs"
proof -
  have "\<forall>op \<in> set (take n ops). \<not> createsProcessing op"
    using assms by (meson in_set_takeD)
  moreover have "activeJobs (newJobManager :: 'a JobManager) \<le> maxConcurrentJobs"
    by (simp add: activeJobs_def newJobManager_def)
  ultimately show ?thesis by (rule run_active)
qed

lemma keys_shutdown_map:
  "map (fst \<circ> (\<lambda>(jobId, job). if c job then (jobId, f job) else (jobId, job))) al = map fst al"
  by (induction al) auto

lemma step_keysDistinct: "keysDistinct jm \<Longrightarrow> keysDistinct (step op jm)"
proof (cases op)
  case (CreateJob jobData uuid now)
  assume "keysDistinct jm"
  with CreateJob show ?thesis
    by (simp add: keysDistinct_def createJob_def Let_def distinct_update)
next
  case (ProcessNextJob now)
  assume "keysDistinct jm"
  with ProcessNextJob show ?thesis
    by (auto simp: keysDistinct_def processNextJob_def updateJob_def Let_def distinct_update
             split: list.splits option.splits)
next
  case (CancelJob jobId now)
  assume "keysDistinct jm"
  with CancelJob show ?thesis
    by (auto simp: keysDistinct_def cancelJob_def updateJob_def Let_def distinct_update
             split: option.splits)
next
  case (CleanupOldJobs now)
  assume "keysDistinct jm"
  with CleanupOldJobs show ?thesis
    by (simp add: keysDistinct_def cleanupOldJobs_def Let_def distinct_map_filter)
next
  case (Shutdown now)
  assume "keysDistinct jm"
  with Shutdown show ?thesis
    by (simp add: keysDistinct_def shutdown_def keys_shutdown_map)
qed

lemma subseq_remove1: "subseq (remove1 x xs) xs"
  by (induction xs) auto

lemma filter_eq_singleton:
  "distinct xs \<Longrightarrow> x \<in> set xs \<Longrightarrow> filter (\<lambda>k. k = x) xs = [x]"
  by (induction xs) (auto simp: filter_empty_conv)

lemma newlyProcessing_same_jobs:
  "jobs jm' = jobs jm \<Longrightarrow> newlyProcessing jm jm' = []"
  by (auto simp: newlyProcessing_def statusOf_def filter_empty_conv)

lemma newlyProcessing_admit:
  assumes "keysDistinct jm" and "map_of (jobs jm) k = Some job" and "status job \<noteq> PROCESSING"
    and "status v = PROCESSING" and "jobs jm' = AList.update k v (jobs jm)"
  shows "newlyProcessing jm jm' = [k]"
proof -
  have mem: "k \<in> set (map fst (jobs jm))"
    using assms(2) by (metis map_of_eq_None_iff option.distinct(1) set_map)
  then have keys: "map fst (jobs jm') = map fst (jobs jm)"
    using assms(5) by (simp add: update_keys)
  have pred: "(statusOf jm k' \<noteq> Some PROCESSING \<and> statusOf jm' k' = Some PROCESSING) = (k' = k)"
    for k'
    using assms(2,3,4,5) by (auto simp: statusOf_def update_conv')
  show ?thesis
    unfolding newlyProcessing_def keys pred
    using assms(1) mem by (simp add: keysDistinct_def filter_eq_singleton)
qed

lemma status_admit:
  "status ((spreadJob job (noFields\<lparr>status_opt := Some PROCESSING,
              currentStage_opt := Some VALIDATING_URL, progress_opt := Some 5\<rparr>))\<lparr>updatedAt := now\<rparr>)
   = PROCESSING"
  by (simp add: spreadJob_def noFields_def orElse_def)

lemma processNextJob_fifo:
  assumes "keysDistinct jm"
  shows "subseq (newlyProcessing jm (processNextJob now jm) @ processingQueue (processNextJob now jm))
                (processingQueue jm)"
proof (cases "activeJobs jm \<ge> maxConcurrentJobs \<or> length (processingQueue jm) = 0")
  case True
  then have "processNextJob now jm = jm" by (auto simp: processNextJob_def)
  then show ?thesis by (simp add: newlyProcessing_same_jobs)
next
  case False
  then obtain jobId rest where q: "processingQueue jm = jobId # rest"
    by (cases "processingQueue jm") auto
  let ?jm1 = "jm\<lparr>processingQueue := rest\<rparr>"
  show ?thesis
  proof (cases "jobId \<noteq> [] \<and> (\<exists>job. map_of (jobs jm) jobId = Some job \<and> status job = PENDING)")
    case dropped: False
    then have "processNextJob now jm = ?jm1"
      using False q by (auto simp: processNextJob_def Let_def split: option.splits)
    moreover have "subseq rest (jobId # rest)"
      by (intro list_emb_Cons) simp
    ultimately show ?thesis using q by (simp add: newlyProcessing_same_jobs)
  next
    case admitted: True
    then obtain job where job: "map_of (jobs jm) jobId = Some job" "status job = PENDING"
      by blast
    let ?v = "(spreadJob job (noFields\<lparr>status_opt := Some PROCESSING,
              currentStage_opt := Some VALIDATING_URL, progress_opt := Some 5\<rparr>))\<lparr>updatedAt := now\<rparr>"
    have res: "processNextJob now jm = ?jm1\<lparr>jobs := AList.update jobId ?v (jobs jm)\<rparr>"
      using False q admitted job
      by (simp add: processNextJob_def updateJob_def Let_def)
    have "newlyProcessing jm (processNextJob now jm) = [jobId]"
      by (rule newlyProcessing_admit [OF assms job(1) _ status_admit])
         (simp_all add: job res)
    then show ?thesis using q res by simp
  qed
qed

lemma createJob_id:
  "job_id (fst (createJob jobData uuid now jm)) = job_id (fst (createJob jobData uuid now jm'))"
  by (simp add: createJob_def Let_def)

lemma step_fifo:
  assumes "keysDistinct jm"
  shows "subseq (admittedBy op jm @ processingQueue (step op jm))
                (processingQueue jm @ submittedId op)"
proof (cases op)
  case (CreateJob jobData uuid now)
  have "processingQueue (snd (createJob jobData uuid now jm)) =
        processingQueue jm @ [job_id (fst (createJob jobData uuid now newJobManager))]"
    using createJob_id [of jobData uuid now jm newJobManager]
    by (simp add: createJob_def Let_def)
  with CreateJob show ?thesis by (simp add: admittedBy_def submittedId_def)
next
  case (ProcessNextJob now)
  with processNextJob_fifo [OF assms, of now] show ?thesis
    by (simp add: admittedBy_def submittedId_def)
next
  case (CancelJob jobId now)
  then show ?thesis
    by (auto simp: admittedBy_def submittedId_def cancelJob_def updateJob_def Let_def
                   subseq_remove1 split: option.splits)
next
  case (CleanupOldJobs now)
  then show ?thesis by (simp add: admittedBy_def submittedId_def cleanupOldJobs_def Let_def)
next
  case (Shutdown now)
  then show ?thesis by (simp add: admittedBy_def submittedId_def shutdown_def)
qed

lemma run_fifo:
  "keysDistinct jm \<Longrightarrow> subseq (acc @ processingQueue jm) cr \<Longrightarrow>
   subseq (acc @ admissions ops jm @ processingQueue (run ops jm)) (cr @ submissions ops)"
proof (induction ops arbitrary: jm acc cr)
  case Nil
  then show ?case by (simp add: run_def submissions_def)
next
  case (Cons op ops)
  have a: "subseq (acc @ admittedBy op jm @ processingQueue (step op jm))
                  (acc @ processingQueue jm @ submittedId op)"
    using step_fifo [OF Cons.prems(1), of op] by (simp add: subseq_append')
  have b: "subseq (acc @ processingQueue jm @ submittedId op) (cr @ submittedId op)"
    using Cons.prems(2) list_emb_append_mono [of "(=)" "acc @ processingQueue jm" cr
        "submittedId op" "submittedId op"]
    by simp
  have c: "subseq ((acc @ admittedBy op jm) @ processingQueue (step op jm)) (cr @ submittedId op)"
    using subseq_order.order_trans [OF a b] by simp
  have "subseq ((acc @ admittedBy op jm) @ admissions ops (step op jm)
                  @ processingQueue (run ops (step op jm)))
               ((cr @ submittedId op) @ submissions ops)"
    by (rule Cons.IH [OF step_keysDistinct [OF Cons.prems(1)] c])
  then show ?case by (simp add: run_def submissions_def)
qed

lemma admissions_fifo: "subseq (admissions ops newJobManager) (submissions ops)"
proof -
  have "subseq ([] @ admissions ops newJobManager @ processingQueue (run ops newJobManager))
               ([] @ submissions ops)"
    by (rule run_fifo) (simp_all add: keysDistinct_def newJobManager_def)
  then have "subseq (admissions ops newJobManager @ processingQueue (run ops newJobManager))
                    (submissions ops)" by simp
  then show ?thesis
    by (metis subseq_order.order_trans list_emb_prefix subseq_order.order_refl)
qed

lemma run_keysDistinct: "keysDistinct jm \<Longrightarrow> keysDistinct (run ops jm)"
  unfolding run_def
  by (induction ops arbitrary: jm) (auto intro: step_keysDistinct)

lemma reachable_keysDistinct: "keysDistinct (run ops newJobManager)"
  by (rule run_keysDistinct) (simp add: keysDistinct_def newJobManager_def)

lemma processNextJob_gate_closed:
  "maxConcurrentJobs \<le> activeJobs jm \<Longrightarrow> processNextJob now jm = jm"
  by (simp add: processNextJob_def)

lemma processNextJob_admits_pending_head:
  assumes "keysDistinct jm" and "processingQueue jm = h # rest" and "h \<noteq> []"
    and "statusOf jm h = Some PENDING" and "activeJobs jm < maxConcurrentJobs"
  shows "newlyProcessing jm (processNextJob now jm) = [h] \<and>
         statusOf (processNextJob now jm) h = Some PROCESSING \<and>
         processingQueue (processNextJob now jm) = rest"
proof -
  from assms(4) obtain job where job: "map_of (jobs jm) h = Some job" "status job = PENDING"
    by (auto simp: statusOf_def)
  let ?v = "(spreadJob job (noFields\<lparr>status_opt := Some PROCESSING,
              currentStage_opt := Some VALIDATING_URL, progress_opt := Some 5\<rparr>))\<lparr>updatedAt := now\<rparr>"
  have res: "processNextJob now jm =
             jm\<lparr>processingQueue := rest, jobs := AList.update h ?v (jobs jm)\<rparr>"
    using assms(2,3,5) job
    by (simp add: processNextJob_def updateJob_def Let_def)
  have new: "newlyProcessing jm (processNextJob now jm) = [h]"
    by (rule newlyProcessing_admit [OF assms(1) job(1) _ status_admit])
       (simp_all add: job res)
  have "statusOf (processNextJob now jm) h = Some PROCESSING"
    by (simp add: res statusOf_def update_conv' status_admit)
  with new res show ?thesis by simp
qed

lemma processNextJob_only_pending_head:
  assumes "keysDistinct jm" and "k \<in> set (newlyProcessing jm (processNextJob now jm))"
  shows "statusOf jm k = Some PENDING \<and> activeJobs jm < maxConcurrentJobs \<and>
         (\<exists>rest. processingQueue jm = k # rest)"
proof (cases "activeJobs jm \<ge> maxConcurrentJobs \<or> length (processingQueue jm) = 0")
  case True
  then have "processNextJob now jm = jm" by (auto simp: processNextJob_def)
  with assms(2) show ?thesis by (simp add: newlyProcessing_same_jobs)
next
  case False
  then obtain jobId rest where q: "processingQueue jm = jobId # rest"
    by (cases "processingQueue jm") auto
  show ?thesis
  proof (cases "jobId \<noteq> [] \<and> statusOf jm jobId = Some PENDING")
    case dropped: False
    then have "processNextJob now jm = jm\<lparr>processingQueue := rest\<rparr>"
      using False q
      by (auto simp: processNextJob_def Let_def statusOf_def split: option.splits)
    with assms(2) show ?thesis by (simp add: newlyProcessing_same_jobs)
  next
    case admitted: True
    from False have lt: "activeJobs jm < maxConcurrentJobs" by simp
    from processNextJob_admits_pending_head [OF assms(1) q _ _ lt, of now] admitted
    have "newlyProcessing jm (processNextJob now jm) = [jobId]" by simp
    with assms(2) have "k = jobId" by simp
    with admitted lt q show ?thesis by simp
  qed
qed

lemma prefix_fifo:
  "subseq (admissions ops newJobManager @ processingQueue (run ops newJobManager))
          (submissions ops)"
proof -
  have "subseq ([] @ admissions ops newJobManager @ processingQueue (run ops newJobManager))
               ([] @ submissions ops)"
    by (rule run_fifo) (simp_all add: keysDistinct_def newJobManager_def)
  then show ?thesis by simp
qed

text \<open>
  C7 (as worded). createJob spreads the caller's fields over its defaults, the status
  included: six createJob calls that carry the status Processing leave six jobs in
  Processing, above \<open>maxConcurrentJobs\<close>. And a job submitted with the empty string as its
  id is queued and Pending, but processNextJob takes the empty id for an empty queue: it
  drops the id and the job stays Pending, never admitted.
\<close>
theorem gate_counterexample:
  "\<not> activeJobs (run sixProcessingJobs newJobManager) \<le> maxConcurrentJobs \<and>
   statusOf emptyIdManager [] = Some PENDING \<and>
   processingQueue emptyIdManager = [[]] \<and>
   activeJobs emptyIdManager < maxConcurrentJobs \<and>
   statusOf (processNextJob 1 emptyIdManager) [] = Some PENDING \<and>
   processingQueue (processNextJob 1 emptyIdManager) = []"
  by code_simp

text \<open>
  C7 (amended). Starting from the empty registry, after every prefix of a sequence of
  createJob, processNextJob, cancelJob, cleanupOldJobs and shutdown calls in which no
  createJob call carries the status Processing: at most \<open>maxConcurrentJobs\<close> jobs are in
  Processing; the jobs admitted so far followed by the jobs queued now stand in their order
  of submission; with \<open>maxConcurrentJobs\<close> jobs in Processing, processNextJob changes
  nothing; with fewer, and a Pending job with a non-empty id at the head of the queue,
  processNextJob admits that job: it takes it off the queue and moves it to Processing; and
  whatever job processNextJob admits was Pending and at the head of the queue. Hence the
  Pending jobs with a non-empty id are admitted in FIFO order of submission.
\<close>
theorem gate_and_fifo:
  assumes "\<forall>op \<in> set ops. \<not> createsProcessing op"
  shows "(\<forall>n \<le> length ops.
            activeJobs (run (take n ops) newJobManager) \<le> maxConcurrentJobs \<and>
            subseq (admissions (take n ops) newJobManager
                      @ processingQueue (run (take n ops) newJobManager))
                   (submissions (take n ops)) \<and>
            (\<forall>now. maxConcurrentJobs \<le> activeJobs (run (take n ops) newJobManager) \<longrightarrow>
               processNextJob now (run (take n ops) newJobManager)
                 = run (take n ops) newJobManager) \<and>
            (\<forall>now h rest.
               processingQueue (run (take n ops) newJobManager) = h # rest \<and> h \<noteq> [] \<and>
               statusOf (run (take n ops) newJobManager) h = Some PENDING \<and>
               activeJobs (run (take n ops) newJobManager) < maxConcurrentJobs \<longrightarrow>
               newlyProcessing (run (take n ops) newJobManager)
                 (processNextJob now (run (take n ops) newJobManager)) = [h] \<and>
               statusOf (processNextJob now (run (take n ops) newJobManager)) h
                 = Some PROCESSING \<and>
               processingQueue (processNextJob now (run (take n ops) newJobManager)) = rest) \<and>
            (\<forall>now k.
               k \<in> set (newlyProcessing (run (take n ops) newJobManager)
                           (processNextJob now (run (take n ops) newJobManager))) \<longrightarrow>
               statusOf (run (take n ops) newJobManager) k = Some PENDING \<and>
               activeJobs (run (take n ops) newJobManager) < maxConcurrentJobs \<and>
               (\<exists>rest. processingQueue (run (take n ops) newJobManager) = k # rest))) \<and>
         subseq (admissions ops newJobManager) (submissions ops)"
proof (intro conjI allI impI)
  fix n
  show "activeJobs (run (take n ops) newJobManager) \<le> maxConcurrentJobs"
    by (rule run_prefix_active [OF assms])
  show "subseq (admissions (take n ops) newJobManager
                  @ processingQueue (run (take n ops) newJobManager))
               (submissions (take n ops))"
    by (rule prefix_fifo)
next
  fix n now
  assume "maxConcurrentJobs \<le> activeJobs (run (take n ops) newJobManager)"
  then show "processNextJob now (run (take n ops) newJobManager) = run (take n ops) newJobManager"
    by (rule processNextJob_gate_closed)
next
  fix n now h rest
  assume a: "processingQueue (run (take n ops) newJobManager) = h # rest \<and> h \<noteq> [] \<and>
             statusOf (run (take n ops) newJobManager) h = Some PENDING \<and>
             activeJobs (run (take n ops) newJobManager) < maxConcurrentJobs"
  from processNextJob_admits_pending_head [OF reachable_keysDistinct, of "take n ops" h rest now] a
  show "newlyProcessing (run (take n ops) newJobManager)
          (processNextJob now (run (take n ops) newJobManager)) = [h]"
    and "statusOf (processNextJob now (run (take n ops) newJobManager)) h = Some PROCESSING"
    and "processingQueue (processNextJob now (run (take n ops) newJobManager)) = rest"
    by simp_all
next
  fix n now k
  assume a: "k \<in> set (newlyProcessing (run (take n ops) newJobManager)
                         (processNextJob now (run (take n ops) newJobManager)))"
  from processNextJob_only_pending_head [OF reachable_keysDistinct a]
  show "statusOf (run (take n ops) newJobManager) k = Some PENDING"
    and "activeJobs (run (take n ops) newJobManager) < maxConcurrentJobs"
    and "\<exists>rest. processingQueue (run (take n ops) newJobManager) = k # rest"
    by simp_all
next
  show "subseq (admissions ops newJobManager) (submissions ops)"
    by (rule admissions_fifo)
qed

theorem gate_and_fifo_witness:
  "list_all (\<lambda>op. \<not> createsProcessing op) sevenJobs \<and>
   list_all (\<lambda>n. activeJobs (run (take n sevenJobs) newJobManager) \<le> maxConcurrentJobs)
     [0..<Suc (length sevenJobs)] \<and>
   processingQueue (run (take 7 sevenJobs) newJobManager) =
     [''job-1'', ''job-2'', ''job-3'', ''job-4'', ''job-5'', ''job-6'', ''job-7''] \<and>
   statusOf (run (take 7 sevenJobs) newJobManager) ''job-1'' = Some PENDING \<and>
   activeJobs (run (take 7 sevenJobs) newJobManager) < maxConcurrentJobs \<and>
   newlyProcessing (run (take 7 sevenJobs) newJobManager)
     (processNextJob 1 (run (take 7 sevenJobs) newJobManager)) = [''job-1''] \<and>
   statusOf (processNextJob 1 (run (take 7 sevenJobs) newJobManager)) ''job-1''
     = Some PROCESSING \<and>
   processingQueue (processNextJob 1 (run (take 7 sevenJobs) newJobManager)) =
     [''job-2'', ''job-3'', ''job-4'', ''job-5'', ''job-6'', ''job-7''] \<and>
   maxConcurrentJobs \<le> activeJobs (run (take 12 sevenJobs) newJobManager) \<and>
   processingQueue (run (take 12 sevenJobs) newJobManager) = [''job-6'', ''job-7''] \<and>
   processNextJob 6 (run (take 12 sevenJobs) newJobManager)
     = run (take 12 sevenJobs) newJobManager \<and>
   subseq (admissions sevenJobs newJobManager) (submissions sevenJobs)"
proof -
  have h: "\<forall>op \<in> set sevenJobs. \<not> createsProcessing op"
    by (simp add: sevenJobs_def createsProcessing_def noFields_def)
  have len: "7 \<le> length sevenJobs" "12 \<le> length sevenJobs" by (simp_all add: sevenJobs_def)
  have q: "processingQueue (run (take 7 sevenJobs) newJobManager) =
     [''job-1'', ''job-2'', ''job-3'', ''job-4'', ''job-5'', ''job-6'', ''job-7'']"
    by code_simp
  have st: "statusOf (run (take 7 sevenJobs) newJobManager) ''job-1'' = Some PENDING"
    by code_simp
  have act: "activeJobs (run (take 7 sevenJobs) newJobManager) < maxConcurrentJobs"
    by code_simp
  have full: "maxConcurrentJobs \<le> activeJobs (run (take 12 sevenJobs) newJobManager)"
    by code_simp
  have q12: "processingQueue (run (take 12 sevenJobs) newJobManager) = [''job-6'', ''job-7'']"
    by code_simp
  note g = gate_and_fifo [OF h]
  from g have all: "\<forall>n \<le> length sevenJobs.
      activeJobs (run (take n sevenJobs) newJobManager) \<le> maxConcurrentJobs" by blast
  from g len(1) have step: "\<forall>now h rest.
               processingQueue (run (take 7 sevenJobs) newJobManager) = h # rest \<and> h \<noteq> [] \<and>
               statusOf (run (take 7 sevenJobs) newJobManager) h = Some PENDING \<and>
               activeJobs (run (take 7 sevenJobs) newJobManager) < maxConcurrentJobs \<longrightarrow>
               newlyProcessing (run (take 7 sevenJobs) newJobManager)
                 (processNextJob now (run (take 7 sevenJobs) newJobManager)) = [h] \<and>
               statusOf (processNextJob now (run (take 7 sevenJobs) newJobManager)) h
                 = Some PROCESSING \<and>
               processingQueue (processNextJob now (run (take 7 sevenJobs) newJobManager)) = rest"
    by blast
  from step q st act
  have adm: "newlyProcessing (run (take 7 sevenJobs) newJobManager)
       (processNextJob 1 (run (take 7 sevenJobs) newJobManager)) = [''job-1''] \<and>
     statusOf (processNextJob 1 (run (take 7 sevenJobs) newJobManager)) ''job-1''
       = Some PROCESSING \<and>
     processingQueue (processNextJob 1 (run (take 7 sevenJobs) newJobManager)) =
       [''job-2'', ''job-3'', ''job-4'', ''job-5'', ''job-6'', ''job-7'']"
    by simp
  from g len(2) full
  have closed: "processNextJob 6 (run (take 12 sevenJobs) newJobManager)
     = run (take 12 sevenJobs) newJobManager"
    by blast
  from g have sub: "subseq (admissions sevenJobs newJobManager) (submissions sevenJobs)"
    by blast
  from h all have l: "list_all (\<lambda>op. \<not> createsProcessing op) sevenJobs \<and>
   list_all (\<lambda>n. activeJobs (run (take n sevenJobs) newJobManager) \<le> maxConcurrentJobs)
     [0..<Suc (length sevenJobs)]"
    by (auto simp: list_all_iff)
  from l q st act adm full q12 closed sub show ?thesis by blast
qed

text \<open>
  In the sample run seven jobs are submitted; five are admitted, the sixth waits until
  a cancellation frees a slot, the seventh stays queued.
\<close>
lemma sevenJobs_admissions:
  "admissions sevenJobs newJobManager = [''job-1'', ''job-2'', ''job-3'', ''job-4'', ''job-5'', ''job-6'']"
  by code_simp

section \<open>Properties of the translation services\<close>

text \<open>
  C8 (as worded). isLowAccuracy reads the field \<open>translationAccuracy\<close> of the result and
  not the overall accuracy of its quality metrics: a result that carries 80 in the first
  and 60 in the second is not reported as low.
\<close>
theorem isLowAccuracy_counterexample:
  "overallAccuracy (qualityMetrics mismatchedResult) < 70 \<and> \<not> isLowAccuracy mismatchedResult"
  by code_simp

text \<open>
  C8 (amended). isLowAccuracy, the same in TranslationService and
  EnhancedTranslationService, holds of a result exactly when its \<open>translationAccuracy\<close>
  is below 70; a result built by translateWithSarvam stores the overall accuracy of its
  quality metrics in that field, so for such a result it holds exactly when the overall
  accuracy is below 70.
\<close>
theorem isLowAccuracy_threshold:
  "isLowAccuracy r = (translationAccuracy r < 70) \<and>
   isLowAccuracy (sarvamResult response tgt qm) = (overallAccuracy qm < 70)"
  by (simp add: isLowAccuracy_def sarvamResult_def)

text \<open>
  C9 (as worded). The guard at the top of calculateSemanticSimilarity returns 0 for an
  empty text, so the identical pair of empty texts scores 0 and not 30.
\<close>
theorem semanticSimilarity_empty_counterexample:
  "calculateSemanticSimilarity [] [] = 0"
  by (simp add: calculateSemanticSimilarity_def)

lemma roundToHundredths_30: "roundToHundredths 30 = 30"
  by (simp add: roundToHundredths_def floor_eq_iff)

text \<open>
  C9 (amended). For every non-empty text, scoring the pair of the text with itself gives
  the semantic similarity 30, also after the rounding to hundredths that the metrics apply;
  so does scoring it against any text equal to it up to case.
\<close>
theorem semanticSimilarity_identical:
  "x \<noteq> [] \<Longrightarrow>
   calculateSemanticSimilarity x x = 30 \<and>
   roundToHundredths (calculateSemanticSimilarity x x) = 30 \<and>
   (toLowerCase y = toLowerCase x \<longrightarrow> calculateSemanticSimilarity x y = 30)"
  by (auto simp: calculateSemanticSimilarity_def Let_def roundToHundredths_30 toLowerCase_def)

theorem semanticSimilarity_identical_witness:
  "''Hello world'' \<noteq> [] \<and>
   calculateSemanticSimilarity ''Hello world'' ''Hello world'' = 30 \<and>
   roundToHundredths (calculateSemanticSimilarity ''Hello world'' ''Hello world'') = 30 \<and>
   toLowerCase ''HELLO World'' = toLowerCase ''Hello world'' \<and>
   calculateSemanticSimilarity ''Hello world'' ''HELLO World'' = 30"
proof -
  have l: "toLowerCase ''HELLO World'' = toLowerCase ''Hello world''"
    by code_simp
  show ?thesis
    using semanticSimilarity_identical [of "''Hello world''" "''HELLO World''"] l
    by (simp add: roundToHundredths_30)
qed

text \<open>
  C4. For a non-blank text: when the call of the preferred family fails and an adapter is
  configured, translateText calls the other family once (Sarvam after LLM, LLM after
  Sarvam) and returns what that call returns, so it fails when both calls fail; when
  Sarvam is preferred, fails and no adapter is configured, its error is raised and nothing
  else is called; no run calls more than two families.
\<close>
theorem translateText_fallback:
  assumes "text \<noteq> []" and "trim text \<noteq> []"
  shows
   "(selectedMethod svc options = LLM \<and> llmAdapter svc \<noteq> None \<and>
     translateWithLLM svc text tgt src0 (llmOptionsOf options) s = (Inl e, s1)
     \<longrightarrow> translateText svc text tgt src0 options s =
           \<lparr>result = fst (translateWithSarvam svc text tgt src0 s1),
            after = snd (translateWithSarvam svc text tgt src0 s1),
            calls = [LLM, SARVAM]\<rparr>) \<and>
    (selectedMethod svc options = SARVAM \<and> llmAdapter svc \<noteq> None \<and>
     translateWithSarvam svc text tgt src0 s = (Inl e, s1)
     \<longrightarrow> translateText svc text tgt src0 options s =
           \<lparr>result = fst (translateWithLLM svc text tgt src0 (llmOptionsOf options) s1),
            after = snd (translateWithLLM svc text tgt src0 (llmOptionsOf options) s1),
            calls = [SARVAM, LLM]\<rparr>) \<and>
    (selectedMethod svc options = SARVAM \<and> llmAdapter svc = None \<and>
     translateWithSarvam svc text tgt src0 s = (Inl e, s1)
     \<longrightarrow> translateText svc text tgt src0 options s =
           \<lparr>result = Inl e, after = s1, calls = [SARVAM]\<rparr>) \<and>
    (selectedMethod svc options = LLM \<and> llmAdapter svc \<noteq> None \<and>
     translateWithLLM svc text tgt src0 (llmOptionsOf options) s = (Inl e, s1) \<and>
     translateWithSarvam svc text tgt src0 s1 = (Inl e', s2)
     \<longrightarrow> result (translateText svc text tgt src0 options s) = Inl e') \<and>
    (selectedMethod svc options = SARVAM \<and> llmAdapter svc \<noteq> None \<and>
     translateWithSarvam svc text tgt src0 s = (Inl e, s1) \<and>
     translateWithLLM svc text tgt src0 (llmOptionsOf options) s1 = (Inl e', s2)
     \<longrightarrow> result (translateText svc text tgt src0 options s) = Inl e') \<and>
    length (calls (translateText svc text tgt src0 options s)) \<le> 2"
  using assms
  by (auto simp: translateText_def Let_def split: prod.splits sum.splits)

theorem translateText_fallback_witness:
  "translateText failingLLMService ''Hello world'' ''hi-IN'' ''auto'' None () =
     \<lparr>result = Inr (sarvamResult sampleResponse ''hi-IN'' sampleMetrics), after = (),
      calls = [LLM, SARVAM]\<rparr> \<and>
   translateText failingSarvamService ''Hello world'' ''hi-IN'' ''auto'' None () =
     \<lparr>result = Inr llmResult, after = (), calls = [SARVAM, LLM]\<rparr> \<and>
   translateText failingSarvamOnlyService ''Hello world'' ''hi-IN'' ''auto'' (Some preferSarvam) () =
     \<lparr>result = Inl sarvamFailure, after = (), calls = [SARVAM]\<rparr> \<and>
   result (translateText failingBothService ''Hello world'' ''hi-IN'' ''auto'' None ()) =
     Inl sarvamFailure \<and>
   length (calls (translateText failingBothService ''Hello world'' ''hi-IN'' ''auto'' None ())) \<le> 2"
proof -
  have t: "''Hello world'' \<noteq> []" "trim ''Hello world'' \<noteq> []"
    by code_simp+
  have m1: "selectedMethod failingLLMService None = LLM \<and> llmAdapter failingLLMService \<noteq> None"
    by code_simp
  have l1: "translateWithLLM failingLLMService ''Hello world'' ''hi-IN'' ''auto'' (llmOptionsOf None) ()
            = (Inl networkError, ())"
    by code_simp
  have s1: "translateWithSarvam failingLLMService ''Hello world'' ''hi-IN'' ''auto'' ()
            = (Inr (sarvamResult sampleResponse ''hi-IN'' sampleMetrics), ())"
    by code_simp
  have m2: "selectedMethod failingSarvamService None = SARVAM \<and>
            llmAdapter failingSarvamService \<noteq> None"
    by code_simp
  have s2: "translateWithSarvam failingSarvamService ''Hello world'' ''hi-IN'' ''auto'' ()
            = (Inl sarvamFailure, ())"
    by code_simp
  have l2: "translateWithLLM failingSarvamService ''Hello world'' ''hi-IN'' ''auto'' (llmOptionsOf None) ()
            = (Inr llmResult, ())"
    by code_simp
  have m3: "selectedMethod failingSarvamOnlyService (Some preferSarvam) = SARVAM \<and>
            llmAdapter failingSarvamOnlyService = None"
    by code_simp
  have s3: "translateWithSarvam failingSarvamOnlyService ''Hello world'' ''hi-IN'' ''auto'' ()
            = (Inl sarvamFailure, ())"
    by code_simp
  have m4: "selectedMethod failingBothService None = LLM \<and> llmAdapter failingBothService \<noteq> None"
    by code_simp
  have l4: "translateWithLLM failingBothService ''Hello world'' ''hi-IN'' ''auto'' (llmOptionsOf None) ()
            = (Inl networkError, ())"
    by code_simp
  have s4: "translateWithSarvam failingBothService ''Hello world'' ''hi-IN'' ''auto'' ()
            = (Inl sarvamFailure, ())"
    by code_simp
  show ?thesis
    using translateText_fallback [OF t, of failingLLMService None "''hi-IN''" "''auto''" "()" networkError "()"]
      translateText_fallback [OF t, of failingSarvamService None "''hi-IN''" "''auto''" "()" sarvamFailure "()"]
      translateText_fallback [OF t, of failingSarvamOnlyService "Some preferSarvam" "''hi-IN''" "''auto''" "()" sarvamFailure "()"]
      translateText_fallback [OF t, of failingBothService None "''hi-IN''" "''auto''" "()" networkError "()" sarvamFailure "()"]
      m1 l1 s1 m2 s2 l2 m3 s3 m4 l4 s4
    by simp
qed

text \<open>
  C5 (as worded). With the method preference LLM and no adapter configured, translateText
  raises no error: it translates with the Sarvam API.
\<close>
theorem translateText_no_adapter_counterexample:
  "selectedMethod sarvamOnlyService None = LLM \<and> llmAdapter sarvamOnlyService = None \<and>
   translateText sarvamOnlyService ''Hello world'' ''hi-IN'' ''auto'' None () =
     \<lparr>result = Inr (sarvamResult sampleResponse ''hi-IN'' sampleMetrics), after = (),
      calls = [SARVAM]\<rparr>"
  by code_simp

text \<open>
  C5 (amended). For a non-blank text, when the method preference is LLM and no adapter is
  configured, translateText makes one call to the Sarvam API and returns what it returns:
  its translation, or its error; no configuration error is raised and no other call is made.
\<close>
theorem translateText_no_adapter:
  assumes "selectedMethod svc options = LLM" and "llmAdapter svc = None"
    and "text \<noteq> []" and "trim text \<noteq> []"
  shows "translateText svc text tgt src0 options s =
           \<lparr>result = fst (translateWithSarvam svc text tgt src0 s),
            after = snd (translateWithSarvam svc text tgt src0 s),
            calls = [SARVAM]\<rparr>"
  using assms
  by (auto simp: translateText_def Let_def split: prod.splits sum.splits)

theorem translateText_no_adapter_witness:
  "selectedMethod sarvamOnlyService None = LLM \<and> llmAdapter sarvamOnlyService = None \<and>
   selectedMethod failingSarvamOnlyService None = LLM \<and>
   llmAdapter failingSarvamOnlyService = None \<and>
   result (translateText sarvamOnlyService ''Hello world'' ''hi-IN'' ''auto'' None ()) =
     Inr (sarvamResult sampleResponse ''hi-IN'' sampleMetrics) \<and>
   translateText failingSarvamOnlyService ''Hello world'' ''hi-IN'' ''auto'' None () =
     \<lparr>result = Inl sarvamFailure, after = (), calls = [SARVAM]\<rparr>"
proof -
  have t: "''Hello world'' \<noteq> []" "trim ''Hello world'' \<noteq> []"
    by code_simp+
  have m1: "selectedMethod sarvamOnlyService None = LLM" and a1: "llmAdapter sarvamOnlyService = None"
    by code_simp+
  have m2: "selectedMethod failingSarvamOnlyService None = LLM"
    and a2: "llmAdapter failingSarvamOnlyService = None"
    by code_simp+
  have s1: "translateWithSarvam sarvamOnlyService ''Hello world'' ''hi-IN'' ''auto'' ()
            = (Inr (sarvamResult sampleResponse ''hi-IN'' sampleMetrics), ())"
    by code_simp
  have s2: "translateWithSarvam failingSarvamOnlyService ''Hello world'' ''hi-IN'' ''auto'' ()
            = (Inl sarvamFailure, ())"
    by code_simp
  show ?thesis
    using translateText_no_adapter [OF m1 a1 t, of "''hi-IN''" "''auto''" "()"]
      translateText_no_adapter [OF m2 a2 t, of "''hi-IN''" "''auto''" "()"]
      m1 a1 m2 a2 s1 s2
    by simp
qed

end
